theory Spec2Isabelle
  imports Main
begin

section \<open>Python values the generator relies on\<close>

text \<open>
  Exceptions are values: every function of the source that can raise returns
  \<open>py_error + 'a\<close>, with \<open>Inl\<close> for the exception.
\<close>

datatype py_error =
    TypeError
  | KeyError string
  | AttributeError
  | IndexError
  | ValueError
  | StopIteration
  | XMLSyntaxError
  | OSError

type_synonym path = string

text \<open>
  \<open>str.split(sep)\<close> for a separator of one character: the empty string gives one empty
  segment, and between two separators there is an empty segment.
\<close>

fun split_sep :: "char \<Rightarrow> string \<Rightarrow> string list" where
  "split_sep c [] = [[]]"
| "split_sep c (x # xs) =
     (if x = c then [] # split_sep c xs
      else (case split_sep c xs of
              w # ws \<Rightarrow> (x # w) # ws
            | [] \<Rightarrow> [[x]]))"

text \<open>\<open>sep.join(segments)\<close>.\<close>

fun join_sep :: "char \<Rightarrow> string list \<Rightarrow> string" where
  "join_sep c [] = []"
| "join_sep c [w] = w"
| "join_sep c (w # v # ws) = w @ c # join_sep c (v # ws)"

text \<open>\<open>str.endswith\<close> and \<open>str.startswith\<close>.\<close>

definition endswith :: "string \<Rightarrow> string \<Rightarrow> bool" where
  "endswith s suf = (length suf \<le> length s \<and> drop (length s - length suf) s = suf)"

definition startswith :: "string \<Rightarrow> string \<Rightarrow> bool" where
  "startswith s pre = (take (length pre) s = pre)"

section \<open>Path classifier\<close>

definition folders_with_USE :: "string list" where
  "folders_with_USE = [''documentation'', ''schemas'', ''representations'', ''data'']"

text \<open>
  The argument of \<open>get_folder_with_USE\<close> is any Python object; only a string has
  \<open>split\<close>, anything else raises \<open>AttributeError\<close> inside the \<open>try\<close> block.
\<close>

datatype pyobj = PyStr string | PyNone

definition py_split_slash :: "pyobj \<Rightarrow> py_error + string list" where
  "py_split_slash p = (case p of PyStr s \<Rightarrow> Inr (split_sep CHR ''/'' s) | PyNone \<Rightarrow> Inl AttributeError)"

text \<open>The loop \<open>for dir in dirs[::-1]\<close> receives the reversed list; \<open>Some d\<close> is \<open>return dir\<close>.\<close>

fun scan_USE :: "string list \<Rightarrow> string option" where
  "scan_USE [] = None"
| "scan_USE (d # ds) = (if d \<in> set folders_with_USE then Some d else scan_USE ds)"

definition get_folder_with_USE_try :: "pyobj \<Rightarrow> py_error + string option" where
  "get_folder_with_USE_try p =
     (case py_split_slash p of
        Inl e \<Rightarrow> Inl e
      | Inr dirs \<Rightarrow> Inr (scan_USE (rev dirs)))"

text \<open>The \<open>except Exception\<close> clause logs and falls through to \<open>return 'other'\<close>.\<close>

definition get_folder_with_USE :: "pyobj \<Rightarrow> string" where
  "get_folder_with_USE p =
     (case get_folder_with_USE_try p of
        Inr (Some d) \<Rightarrow> d
      | Inr None \<Rightarrow> ''other''
      | Inl e \<Rightarrow> ''other'')"

section \<open>XML trees and namespaces\<close>

text \<open>
  An lxml element: tag, attributes in insertion order, text, children. Tags and attribute
  names in a namespace are written in Clark notation \<open>{namespace}name\<close>.
\<close>

datatype xml = Elem (tag: string) (attrs: "(string \<times> string) list") (etext: string) (kids: "xml list")

definition METS_NS :: string where
  "METS_NS = ''http://www.loc.gov/METS/''"

definition XLINK_NS :: string where
  "XLINK_NS = ''http://www.w3.org/1999/xlink''"

definition CSIP_NS :: string where
  "CSIP_NS = ''https://DILCIS.eu/XML/METS/CSIPExtensionMETS''"

definition PROFILE_XML :: string where
  "PROFILE_XML = ''https://earkcsip.dilcis.eu/profile/E-ARK-CSIP.xml''"

definition default_mets_schema_location :: string where
  "default_mets_schema_location = ''schemas/mets.xsd''"

definition default_csip_location :: string where
  "default_csip_location = ''schemas/DILCISExtensionMETS.xsd''"

definition default_xlink_schema_location :: string where
  "default_xlink_schema_location = ''https://www.w3.org/1999/xlink.xsd''"

text \<open>
  Modelled from the spec: \<open>XSI_NS\<close> is imported from \<open>eatb.metadata.XmlHelper\<close>, a module
  of the repository outside the files at hand. It is the schema-instance namespace of
  the document structure, the value that \<open>METS_NSMAP\<close> and \<open>ParsedMets.ns\<close> bind to the
  prefix \<open>xsi\<close>.
\<close>

definition XSI_NS :: string where
  "XSI_NS = ''http://www.w3.org/2001/XMLSchema-instance''"

text \<open>
  Modelled from the spec: \<open>q\<close> is imported from \<open>eatb.metadata.XmlHelper\<close> as well. It
  builds the qualified name of a namespaced attribute or tag, in the notation lxml
  takes for them.
\<close>

definition q :: "string \<Rightarrow> string \<Rightarrow> string" where
  "q ns name = ''{'' @ ns @ ''}'' @ name"

text \<open>\<open>M.<name>(attributes)\<close>: an element of the METS namespace.\<close>

definition M :: "string \<Rightarrow> (string \<times> string) list \<Rightarrow> xml" where
  "M name atts = Elem (q METS_NS name) atts [] []"

definition M_text :: "string \<Rightarrow> (string \<times> string) list \<Rightarrow> string \<Rightarrow> xml" where
  "M_text name atts t = Elem (q METS_NS name) atts t []"

fun append_kid :: "xml \<Rightarrow> xml \<Rightarrow> xml" where
  "append_kid (Elem t atts x ks) k = Elem t atts x (ks @ [k])"

text \<open>\<open>element.get(name)\<close> and the XPath step \<open>@name\<close> (every attribute node of that name).\<close>

definition get_attr :: "xml \<Rightarrow> string \<Rightarrow> string option" where
  "get_attr e n = map_of (attrs e) n"

definition xpath_attr :: "xml \<Rightarrow> string \<Rightarrow> string list" where
  "xpath_attr e n = map snd (filter (\<lambda>kv. fst kv = n) (attrs e))"

text \<open>
  \<open>element.find("tag[@name='value']")\<close>: the first child with that tag and attribute
  value; the model returns its position so that the in-place update of the child can be
  written as an update of the list of children. The source pastes the value between
  single quotes into the path expression; the model compares the attribute with the
  value itself, which is what that expression means for a value without an apostrophe.
  A value holding an apostrophe, for which the expression is another one or is refused
  with \<open>SyntaxError\<close>, is outside the model.
\<close>

fun find_index_from :: "nat \<Rightarrow> ('a \<Rightarrow> bool) \<Rightarrow> 'a list \<Rightarrow> nat option" where
  "find_index_from i P [] = None"
| "find_index_from i P (x # xs) = (if P x then Some i else find_index_from (Suc i) P xs)"

definition find_child :: "xml \<Rightarrow> string \<Rightarrow> string \<Rightarrow> string \<Rightarrow> nat option" where
  "find_child e t n v = find_index_from 0 (\<lambda>k. tag k = t \<and> get_attr k n = Some v) (kids e)"

section \<open>Files\<close>

text \<open>
  The content of a file is either the serialisation of an XML tree, which \<open>etree.parse\<close>
  reads back, or text that is no XML document (the empty file among them). The program's
  effects are the files it writes and the messages it logs.
\<close>

datatype file_content = XmlText xml | OtherText string

record world =
  files :: "path \<rightharpoonup> file_content"
  log :: "string list"

definition os_path_exists :: "world \<Rightarrow> path \<Rightarrow> bool" where
  "os_path_exists w p = (files w p \<noteq> None)"

definition etree_parse :: "world \<Rightarrow> path \<Rightarrow> py_error + xml" where
  "etree_parse w p =
     (case files w p of
        None \<Rightarrow> Inl OSError
      | Some (OtherText t) \<Rightarrow> Inl XMLSyntaxError
      | Some (XmlText e) \<Rightarrow> Inr e)"

text \<open>
  \<open>etree.tostring(root, encoding='UTF-8', ...)\<close> returns a \<open>bytes\<close> object;
  \<open>bytes.decode('utf-8')\<close> makes a \<open>str\<close> of it.
\<close>

datatype pydata = PyBytes file_content | PyText file_content

definition etree_tostring :: "xml \<Rightarrow> pydata" where
  "etree_tostring e = PyBytes (XmlText e)"

definition decode_utf8 :: "pydata \<Rightarrow> py_error + pydata" where
  "decode_utf8 d = (case d of PyBytes c \<Rightarrow> Inr (PyText c) | PyText c \<Rightarrow> Inl AttributeError)"

text \<open>
  \<open>with open(p, 'w') as output_file: output_file.write(d)\<close>. Opening in mode \<open>w\<close> creates or
  truncates the file; a file opened in text mode accepts \<open>str\<close> only and raises
  \<open>TypeError\<close> on \<open>bytes\<close>, after the truncation. The model has files and no
  directories: the directory of \<open>p\<close> is taken to exist and to be writable, so that
  \<open>open\<close> itself does not raise (\<open>FileNotFoundError\<close>, \<open>PermissionError\<close>).
\<close>

definition write_text_file :: "path \<Rightarrow> pydata \<Rightarrow> world \<Rightarrow> (py_error + unit) \<times> world" where
  "write_text_file p d w =
     (let w1 = w\<lparr>files := (files w)(p \<mapsto> OtherText [])\<rparr>
      in case d of
           PyText c \<Rightarrow> (Inr (), w1\<lparr>files := (files w1)(p \<mapsto> c)\<rparr>)
         | PyBytes c \<Rightarrow> (Inl TypeError, w1))"

definition logger_debug :: "string \<Rightarrow> world \<Rightarrow> world" where
  "logger_debug msg w = w\<lparr>log := log w @ [msg]\<rparr>"

text \<open>\<open>os.path.join\<close> of two components (POSIX).\<close>

definition os_path_join :: "path \<Rightarrow> path \<Rightarrow> path" where
  "os_path_join a b =
     (if startswith b ''/'' then b
      else if a = [] \<or> endswith a ''/'' then a @ b
      else a @ ''/'' @ b)"

section \<open>Descriptor reader\<close>

record ParsedMets =
  root_dir :: string
  mets_tree :: "xml option"



text \<open>
  \<open>self.mets_tree.getroot()\<close> on an instance that was never loaded is an attribute access
  on \<open>None\<close>.
\<close>

definition get_obj_id :: "ParsedMets \<Rightarrow> py_error + string" where
  "get_obj_id pm =
     (case mets_tree pm of
        None \<Rightarrow> Inl AttributeError
      | Some root \<Rightarrow>
          (let xpath_result = xpath_attr root ''OBJID''
           in Inr (if length xpath_result = 1 then xpath_result ! 0 else ''urn:uuid:none'')))"

definition get_package_type :: "ParsedMets \<Rightarrow> py_error + string" where
  "get_package_type pm =
     (case mets_tree pm of
        None \<Rightarrow> Inl AttributeError
      | Some root \<Rightarrow>
          (let xpath_result = xpath_attr root ''TYPE''
           in Inr (if length xpath_result = 1 then xpath_result ! 0 else ''NONE'')))"




section \<open>Generator instance and relationship linker\<close>

text \<open>
  A \<open>MetsGenerator\<close> instance: \<open>root_path\<close> is set by the constructor; \<open>mets_data\<close> is the
  class attribute \<open>None\<close> until \<open>createMets\<close> stores its configuration dictionary there.
\<close>

record MetsGenerator =
  root_path :: string
  mets_data :: "(string \<rightharpoonup> string) option"

definition MetsGenerator_init :: "string \<Rightarrow> MetsGenerator" where
  "MetsGenerator_init rp = \<lparr>root_path = rp, mets_data = None\<rparr>"

text \<open>
  \<open>self.mets_data[key]\<close>: subscripting \<open>None\<close> raises \<open>TypeError\<close>, a missing key raises
  \<open>KeyError\<close>.
\<close>

definition mets_data_item :: "MetsGenerator \<Rightarrow> string \<Rightarrow> py_error + string" where
  "mets_data_item g key =
     (case mets_data g of
        None \<Rightarrow> Inl TypeError
      | Some d \<Rightarrow> (case d key of None \<Rightarrow> Inl (KeyError key) | Some v \<Rightarrow> Inr v))"

text \<open>
  The pointer of a relation; \<open>uid\<close> is the value \<open>uuid.uuid4()\<close> returns in this call and
  \<open>rel\<close> is \<open>parent\<close> or \<open>child\<close>.
\<close>

definition relation_pointer :: "string \<Rightarrow> string \<Rightarrow> string \<Rightarrow> string \<Rightarrow> xml" where
  "relation_pointer rel packagetype identifier uid =
     M ''mptr'' [(''LOCTYPE'', ''OTHER''),
                 (''OTHERLOCTYPE'', ''UUID''),
                 (q XLINK_NS ''title'', ''Referencing a '' @ rel @ '' '' @ packagetype @ ''.''),
                 (q XLINK_NS ''href'', identifier),
                 (''ID'', ''ID'' @ uid)]"

text \<open>
  The update of the parsed sibling document, common to both operations up to the word
  \<open>parent\<close> or \<open>child\<close>: a division holding the pointer is appended to the
  \<open>... identifiers\<close> division of the relation's structMap when the root has such a
  structMap, else a new structMap is appended to the root. \<open>find\<close> returning \<open>None\<close> for
  the inner division makes \<open>append\<close> an attribute access on \<open>None\<close>.
\<close>

definition relation_update :: "string \<Rightarrow> string \<Rightarrow> string \<Rightarrow> string \<Rightarrow> xml \<Rightarrow> py_error + xml" where
  "relation_update rel packagetype identifier uid parent_root =
     (let relation = M ''div'' [(''LABEL'', rel @ '' '' @ packagetype)];
          pointer = relation_pointer rel packagetype identifier uid;
          relation = append_kid relation pointer
      in case find_child parent_root (q METS_NS ''structMap'') ''LABEL'' (rel @ '' '' @ packagetype) of
           Some i \<Rightarrow>
             (let relation_map = kids parent_root ! i
              in case find_child relation_map (q METS_NS ''div'') ''LABEL''
                        (rel @ '' '' @ packagetype @ '' identifiers'') of
                   None \<Rightarrow> Inl AttributeError
                 | Some j \<Rightarrow>
                     (let relation_div = append_kid (kids relation_map ! j) relation;
                          relation_map = Elem (tag relation_map) (attrs relation_map) (etext relation_map)
                                           ((kids relation_map)[j := relation_div])
                      in Inr (Elem (tag parent_root) (attrs parent_root) (etext parent_root)
                                ((kids parent_root)[i := relation_map]))))
         | None \<Rightarrow>
             (let relation_map = M ''structMap'' [(''LABEL'', rel @ '' '' @ packagetype), (''TYPE'', ''logical'')];
                  relation_div = M ''div'' [(''LABEL'', rel @ '' '' @ packagetype @ '' identifiers'')];
                  relation_div = append_kid relation_div relation;
                  relation_map = append_kid relation_map relation_div
              in Inr (append_kid parent_root relation_map)))"

text \<open>
  Both operations read \<open>self.mets_data['type']\<close> first, then test the sibling file. The
  serialised tree is passed to \<open>write\<close> as \<open>etree.tostring\<close> returns it.
\<close>

definition link_relation :: "string \<Rightarrow> MetsGenerator \<Rightarrow> string \<Rightarrow> string \<Rightarrow> world \<Rightarrow> (py_error + unit) \<times> world" where
  "link_relation rel g identifier uid w =
     (let parentmets = os_path_join (root_path g) ''METS.xml''
      in case mets_data_item g ''type'' of
           Inl e \<Rightarrow> (Inl e, w)
         | Inr packagetype \<Rightarrow>
             if os_path_exists w parentmets then
               (case etree_parse w parentmets of
                  Inl e \<Rightarrow> (Inl e, w)
                | Inr parent_root \<Rightarrow>
                    (case relation_update rel packagetype identifier uid parent_root of
                       Inl e \<Rightarrow> (Inl e, w)
                     | Inr parent_root' \<Rightarrow>
                         write_text_file parentmets (etree_tostring parent_root') w))
             else (Inr (), logger_debug (''Couldn't find the parent '' @ packagetype @ ''s Mets file.'') w))"

definition setParentRelation :: "MetsGenerator \<Rightarrow> string \<Rightarrow> string \<Rightarrow> world \<Rightarrow> (py_error + unit) \<times> world" where
  "setParentRelation g identifier uid w = link_relation ''parent'' g identifier uid w"

definition addChildRelation :: "MetsGenerator \<Rightarrow> string \<Rightarrow> string \<Rightarrow> world \<Rightarrow> (py_error + unit) \<times> world" where
  "addChildRelation g identifier uid w = link_relation ''child'' g identifier uid w"

section \<open>Example inputs\<close>

definition example_mets_data :: "string \<rightharpoonup> string" where
  "example_mets_data =
     [''packageid'' \<mapsto> ''urn:uuid:pkg-1'', ''type'' \<mapsto> ''SIP'',
      ''schemas'' \<mapsto> ''/pkg/schemas'', ''parent'' \<mapsto> []]"

definition example_generator :: MetsGenerator where
  "example_generator = \<lparr>root_path = ''/pkg'', mets_data = Some example_mets_data\<rparr>"

definition empty_world :: world where
  "empty_world = \<lparr>files = Map.empty, log = []\<rparr>"

definition example_sibling :: xml where
  "example_sibling = M ''mets'' [(''OBJID'', ''urn:uuid:parent-1''), (''TYPE'', ''Databases'')]"

definition world_with_sibling :: world where
  "world_with_sibling = \<lparr>files = [''/pkg/METS.xml'' \<mapsto> XmlText example_sibling], log = []\<rparr>"

definition world_truncated_sibling :: world where
  "world_truncated_sibling = \<lparr>files = [''/pkg/METS.xml'' \<mapsto> OtherText []], log = []\<rparr>"

section \<open>Package directory and operating system\<close>

text \<open>
  The package directory as \<open>os.walk\<close> and \<open>os.listdir\<close> see it: the entries of a directory
  in the order the operating system enumerates them.
\<close>

datatype fsnode = File string | Dir string "fsnode list"

fun entry_name :: "fsnode \<Rightarrow> string" where
  "entry_name (File n) = n"
| "entry_name (Dir n sub) = n"

text \<open>The lists \<open>filenames\<close> and \<open>subdirectories\<close> that \<open>os.walk\<close> yields for a directory.\<close>

fun file_names :: "fsnode list \<Rightarrow> string list" where
  "file_names [] = []"
| "file_names (File n # es) = n # file_names es"
| "file_names (Dir n sub # es) = file_names es"

fun dir_names :: "fsnode list \<Rightarrow> string list" where
  "dir_names [] = []"
| "dir_names (File n # es) = dir_names es"
| "dir_names (Dir n sub # es) = n # dir_names es"

text \<open>
  What the generator takes from outside the repository's sources: the operating system
  (\<open>os.path.isfile\<close>, \<open>os.path.relpath\<close> and \<open>os.path.getsize\<close>), the uuid source (the
  \<open>k\<close>-th value \<open>uuid.uuid4()\<close> returns during a run), the clock, the MIME table, and the
  helpers of \<open>eatb.storage.checksum\<close>, \<open>eatb.utils.datetime\<close> and \<open>eatb.settings\<close>.
\<close>

record os_env =
  isfile :: "path \<Rightarrow> bool"
  relpath :: "path \<Rightarrow> path \<Rightarrow> path"
  uuid4 :: "nat \<Rightarrow> string"
  current_timestamp :: string
  guess_type :: "path \<Rightarrow> string option"
  get_sha256_hash :: "path \<Rightarrow> string"
  getsize :: "path \<Rightarrow> nat"
  get_file_ctime_iso_date_str :: "path \<Rightarrow> string"
  application_name :: string
  application_version :: string

text \<open>
  \<open>os.path.relpath(p, self.root_path)\<close> for a path \<open>p\<close> that the walk reached from the root
  through the entries named \<open>segs\<close>.
\<close>

definition rel_of :: "string list \<Rightarrow> string" where
  "rel_of segs = (if segs = [] then ''.'' else join_sep CHR ''/'' segs)"

text \<open>\<open>str(n)\<close> for a file size.\<close>

fun string_of_nat :: "nat \<Rightarrow> string" where
  "string_of_nat n =
     (if n < 10 then [''0123456789'' ! n]
      else string_of_nat (n div 10) @ [''0123456789'' ! (n mod 10)])"

text \<open>\<open>str.lower\<close> on ASCII letters.\<close>

definition lower_char :: "char \<Rightarrow> char" where
  "lower_char c =
     (case map_of (zip ''ABCDEFGHIJKLMNOPQRSTUVWXYZ'' ''abcdefghijklmnopqrstuvwxyz'') c of
        Some l \<Rightarrow> l
      | None \<Rightarrow> c)"

definition lower :: "string \<Rightarrow> string" where
  "lower s = map lower_char s"

text \<open>\<open>fnmatch.fnmatch(name, '*_mig-*')\<close>: the name contains \<open>_mig-\<close>.\<close>

fun contains_sub :: "string \<Rightarrow> string \<Rightarrow> bool" where
  "contains_sub sub [] = (sub = [])"
| "contains_sub sub (x # xs) = (startswith (x # xs) sub \<or> contains_sub sub xs)"

text \<open>\<open>directory.rsplit('/', 1)[1]\<close>: without a \<open>/\<close> the list has one element only.\<close>

definition rsplit_slash_1 :: "string \<Rightarrow> py_error + string" where
  "rsplit_slash_1 d =
     (if CHR ''/'' \<in> set d then Inr (last (split_sep CHR ''/'' d)) else Inl IndexError)"

text \<open>
  \<open>os.walk(top)\<close> run to its end without pruning, as the metadata branch uses it: the
  directories below \<open>top\<close> in top-down order, each with its path, its path relative to
  the package root and its entries.
\<close>

fun walk_subdirs :: "path \<Rightarrow> string list \<Rightarrow> fsnode list \<Rightarrow> (path \<times> string list \<times> fsnode list) list" where
  "walk_subdirs dirpath rel [] = []"
| "walk_subdirs dirpath rel (File n # es) = walk_subdirs dirpath rel es"
| "walk_subdirs dirpath rel (Dir n sub # es) =
     (os_path_join dirpath n, rel @ [n], sub)
       # walk_subdirs (os_path_join dirpath n) (rel @ [n]) sub @ walk_subdirs dirpath rel es"

definition os_walk :: "path \<Rightarrow> string list \<Rightarrow> fsnode list \<Rightarrow> (path \<times> string list \<times> fsnode list) list" where
  "os_walk dirpath rel entries = (dirpath, rel, entries) # walk_subdirs dirpath rel entries"

text \<open>A \<open>for\<close> loop whose body may raise: the first exception ends the loop.\<close>

fun for_each :: "('a \<Rightarrow> 's \<Rightarrow> py_error + 's) \<Rightarrow> 'a list \<Rightarrow> 's \<Rightarrow> py_error + 's" where
  "for_each body [] s = Inr s"
| "for_each body (x # xs) s =
     (case body x s of Inl e \<Rightarrow> Inl e | Inr s' \<Rightarrow> for_each body xs s')"

section \<open>Generation state\<close>

text \<open>
  The objects \<open>createMets\<close> builds and mutates, under the names of its local variables.
  lxml elements are shared mutable objects: an element appended to its parent is changed
  later through the variable that still refers to it. The model keeps every element that
  is changed after its creation in a field of its own, and \<open>document\<close> puts the tree
  together as it stands when it is serialised. The file groups are kept in a store
  \<open>grp_store\<close> of elements by address: the dictionary \<open>mets_filegroups\<close> and the children of
  \<open>mets_fileSec\<close> both refer to file groups by address, so that a group the dictionary
  knows and the file section does not hold is told apart from one they share.
  \<open>counter\<close> is the number of uuids drawn, \<open>messages\<close> the message strings the logger
  was called with. The call of \<open>logger.error\<close> in the handler of \<open>KeyError\<close> also passes
  the exception as a formatting argument that the message has no place for; what the
  log handlers make of that record is not modelled, and the call returns either way.
\<close>

record gen_state =
  counter :: nat
  root_attrs :: "(string \<times> string) list"
  mets_hdr :: xml
  dmdSecs :: "xml list"
  mets_amdSec :: xml
  mets_fileSec :: xml
  fileSec_kids :: "nat list"
  grp_store :: "xml list"
  mets_filegroups :: "string \<rightharpoonup> nat"
  mets_earkstructmap :: xml
  package_div :: xml
  mets_structmap :: xml
  mets_structmap_div :: xml
  mets_structmap_metadata_div :: xml
  mets_structmap_schema_div :: xml
  mets_structmap_content_div :: xml
  mets_structmap_relation :: "xml option"
  messages :: "string list"

text \<open>
  The tree under \<open>root\<close> at serialisation: \<open>root.insert(1, mets_dmd)\<close> puts each dmdSec
  right after the header, the latest first.
\<close>

definition document :: "gen_state \<Rightarrow> xml" where
  "document s =
     Elem (q METS_NS ''mets'') (root_attrs s) []
       ([mets_hdr s] @ dmdSecs s @
        [mets_amdSec s,
         Elem (tag (mets_fileSec s)) (attrs (mets_fileSec s)) (etext (mets_fileSec s))
           (map (\<lambda>a. grp_store s ! a) (fileSec_kids s)),
         append_kid (mets_earkstructmap s) (package_div s),
         append_kid (mets_structmap s)
           (append_kid (append_kid (append_kid (mets_structmap_div s)
              (mets_structmap_metadata_div s))
              (mets_structmap_schema_div s))
              (mets_structmap_content_div s))] @
        (case mets_structmap_relation s of None \<Rightarrow> [] | Some r \<Rightarrow> [r]))"

text \<open>\<open>"ID" + uuid.uuid4().__str__()\<close>.\<close>

definition fresh_id :: "os_env \<Rightarrow> gen_state \<Rightarrow> string \<times> gen_state" where
  "fresh_id env s = (''ID'' @ uuid4 env (counter s), s\<lparr>counter := Suc (counter s)\<rparr>)"

definition fptr :: "string \<Rightarrow> xml" where
  "fptr fid = M ''fptr'' [(''FILEID'', fid)]"

definition mimetype_or_default :: "string option \<Rightarrow> string" where
  "mimetype_or_default m =
     (case m of None \<Rightarrow> ''application/octet-stream''
      | Some t \<Rightarrow> if t = [] then ''application/octet-stream'' else t)"

text \<open>
  \<open>addFile(file_name, mets_filegroup)\<close>: \<open>rel_file\<close> are the names from the root to the
  file, \<open>addr\<close> is the address of the file group passed. \<open>mets_file_element\<close> is the
  \<open>file\<close> element with its \<open>FLocat\<close> child.
\<close>

definition mets_file_element :: "os_env \<Rightarrow> string list \<Rightarrow> path \<Rightarrow> string \<Rightarrow> xml" where
  "mets_file_element env rel_file file_name file_id =
     (let file_url = rel_of rel_file;
          file_mimetype = mimetype_or_default (guess_type env file_url);
          file_checksum = get_sha256_hash env file_name;
          file_size = getsize env file_name;
          file_cdate = get_file_ctime_iso_date_str env file_name;
          mets_FLocat = M ''FLocat'' [(q XLINK_NS ''href'', file_url), (''LOCTYPE'', ''URL''),
                                      (q XLINK_NS ''type'', ''simple'')]
      in append_kid
           (M ''file'' [(''MIMETYPE'', file_mimetype), (''CHECKSUMTYPE'', ''SHA-256''),
                        (''CREATED'', file_cdate), (''CHECKSUM'', file_checksum),
                        (''USE'', ''Datafile''), (''ID'', file_id),
                        (''SIZE'', string_of_nat file_size)])
           mets_FLocat)"

definition addFile :: "os_env \<Rightarrow> string list \<Rightarrow> path \<Rightarrow> nat \<Rightarrow> gen_state \<Rightarrow> string \<times> gen_state" where
  "addFile env rel_file file_name addr s =
     (let (file_id, s1) = fresh_id env s;
          mets_file = mets_file_element env rel_file file_name file_id
      in (file_id,
          s1\<lparr>grp_store := (grp_store s1)[addr := append_kid (grp_store s1 ! addr) mets_file]\<rparr>))"

definition make_mdref :: "os_env \<Rightarrow> path \<Rightarrow> string list \<Rightarrow> string \<Rightarrow> string \<Rightarrow> string \<Rightarrow> (string \<times> string) list" where
  "make_mdref env dir rel file fid mdtype =
     [(''LOCTYPE'', ''URL''),
      (''MIMETYPE'', mimetype_or_default (guess_type env (os_path_join dir file))),
      (''CREATED'', current_timestamp env),
      (q XLINK_NS ''type'', ''simple''),
      (q XLINK_NS ''href'', rel_of (rel @ [file])),
      (''CHECKSUMTYPE'', ''SHA-256''),
      (''CHECKSUM'', get_sha256_hash env (os_path_join dir file)),
      (''ID'', fid),
      (''SIZE'', string_of_nat (getsize env (os_path_join dir file))),
      (''MDTYPE'', mdtype)]"

text \<open>\<open>mets_filegroups[folder_with_USE]\<close>.\<close>

definition lookup_filegroup :: "gen_state \<Rightarrow> string \<Rightarrow> py_error + nat" where
  "lookup_filegroup s role =
     (case mets_filegroups s role of None \<Rightarrow> Inl (KeyError role) | Some a \<Rightarrow> Inr a)"

text \<open>
  \<open>physical_div.append(x)\<close>. The variable holds the division created for the directory,
  which is the child of \<open>package_div\<close> at the position given, or the string \<open>''\<close>, which
  has no \<open>append\<close>.
\<close>

definition append_physical :: "nat option \<Rightarrow> xml \<Rightarrow> gen_state \<Rightarrow> py_error + gen_state" where
  "append_physical physical_div x s =
     (case physical_div of
        None \<Rightarrow> Inl AttributeError
      | Some i \<Rightarrow>
          Inr (s\<lparr>package_div :=
                 Elem (tag (package_div s)) (attrs (package_div s)) (etext (package_div s))
                   ((kids (package_div s))[i := append_kid (kids (package_div s) ! i) x])\<rparr>))"

definition logger_msg :: "string \<Rightarrow> gen_state \<Rightarrow> gen_state" where
  "logger_msg msg s = s\<lparr>messages := messages s @ [msg]\<rparr>"

section \<open>The walk of createMets\<close>

text \<open>
  A metadata file listed in a \<open>dmdSec\<close> (inserted into the root after the header) and in
  a \<open>digiprovMD\<close> of the \<open>amdSec\<close>; \<open>status\<close> tells whether the \<open>digiprovMD\<close> is created
  with \<open>STATUS\<close>. Both end with a pointer in the metadata division and one in the
  physical division.
\<close>

definition add_dmdSec :: "os_env \<Rightarrow> path \<Rightarrow> string list \<Rightarrow> string \<Rightarrow> nat option \<Rightarrow> gen_state \<Rightarrow> py_error + gen_state" where
  "add_dmdSec env dir rel filename physical_div s =
     (let (dmd_id, s1) = fresh_id env s;
          mets_dmd = M ''dmdSec'' [(''ID'', dmd_id), (''CREATED'', current_timestamp env),
                                   (''STATUS'', ''CURRENT'')];
          (fid, s2) = fresh_id env s1;
          ref = make_mdref env dir rel filename fid ''OTHER'';
          mets_dmd = append_kid mets_dmd (M ''mdRef'' ref);
          s3 = s2\<lparr>dmdSecs := mets_dmd # dmdSecs s2\<rparr>;
          s4 = s3\<lparr>mets_structmap_metadata_div :=
                    append_kid (mets_structmap_metadata_div s3) (fptr fid)\<rparr>
      in append_physical physical_div (fptr fid) s4)"

definition add_digiprovMD :: "os_env \<Rightarrow> bool \<Rightarrow> path \<Rightarrow> string list \<Rightarrow> string \<Rightarrow> string \<Rightarrow> nat option \<Rightarrow> gen_state \<Rightarrow> py_error + gen_state" where
  "add_digiprovMD env status dir rel filename mdtype physical_div s =
     (let (dp_id, s1) = fresh_id env s;
          mets_digiprovmd = M ''digiprovMD''
            (if status then [(''ID'', dp_id), (''STATUS'', ''CURRENT'')] else [(''ID'', dp_id)]);
          (fid, s2) = fresh_id env s1;
          ref = make_mdref env dir rel filename fid mdtype;
          mets_digiprovmd = append_kid mets_digiprovmd (M ''mdRef'' ref);
          s3 = s2\<lparr>mets_amdSec := append_kid (mets_amdSec s2) mets_digiprovmd\<rparr>;
          s4 = s3\<lparr>mets_structmap_metadata_div :=
                    append_kid (mets_structmap_metadata_div s3) (fptr fid)\<rparr>
      in append_physical physical_div (fptr fid) s4)"

definition is_premis :: "string \<Rightarrow> bool" where
  "is_premis filename = (startswith filename ''premis'' \<or> endswith filename ''premis.xml'')"

text \<open>The loop over \<open>filenames\<close> at the head of the metadata branch.\<close>

definition conduit_file :: "os_env \<Rightarrow> path \<Rightarrow> string list \<Rightarrow> nat option \<Rightarrow> string \<Rightarrow> gen_state \<Rightarrow> py_error + gen_state" where
  "conduit_file env directory rel physical_div filename s =
     (if filename = ''conduit.log''
      then add_digiprovMD env False directory rel filename ''OTHER'' physical_div s
      else Inr s)"

text \<open>A file of a metadata folder whose name matches \<open>*_mig-*\<close>.\<close>

definition mig_metadata_file :: "os_env \<Rightarrow> path \<Rightarrow> string list \<Rightarrow> nat option \<Rightarrow> string \<Rightarrow> gen_state \<Rightarrow> py_error + gen_state" where
  "mig_metadata_file env dir rel physical_div filename s =
     (if endswith dir ''descriptive'' then add_dmdSec env dir rel filename physical_div s
      else if endswith dir ''preservation'' then
        add_digiprovMD env False dir rel filename
          (if is_premis filename then ''PREMIS'' else ''OTHER'') physical_div s
      else if filename \<noteq> [] then
        Inr (logger_msg (''Unclassified metadata file '' @ filename @ '' in '' @ dir @ ''.'') s)
      else Inr s)"

text \<open>A file of any other metadata folder \<open>dirname\<close>.\<close>

definition other_metadata_file :: "os_env \<Rightarrow> string \<Rightarrow> path \<Rightarrow> string list \<Rightarrow> nat option \<Rightarrow> string \<Rightarrow> gen_state \<Rightarrow> py_error + gen_state" where
  "other_metadata_file env dirname dir rel physical_div filename s =
     (if dirname = ''descriptive'' then add_dmdSec env dir rel filename physical_div s
      else if dirname = ''preservation'' \<or> dirname = ''conduit'' then
        add_digiprovMD env True dir rel filename
          (if is_premis filename then ''PREMIS'' else if filename \<noteq> [] then ''OTHER'' else [])
          physical_div s
      else if filename \<noteq> [] then
        Inr (logger_msg (''Unclassified metadata file '' @ filename @ '' in '' @ dir @ ''.'') s)
      else Inr s)"

text \<open>
  One entry of \<open>os.listdir(<root>/metadata)\<close>. \<open>os.walk\<close> on the entry yields its
  directories when it is a directory and nothing when it is a file. The source formats
  the joined path with \<open>% dirname\<close>; the model takes a root path without \<open>%\<close>.
\<close>

definition metadata_entry :: "os_env \<Rightarrow> path \<Rightarrow> string list \<Rightarrow> nat option \<Rightarrow> fsnode \<Rightarrow> gen_state \<Rightarrow> py_error + gen_state" where
  "metadata_entry env root rel physical_div entry s =
     (let dirname = entry_name entry;
          walked = (case entry of
                      File n \<Rightarrow> []
                    | Dir n sub \<Rightarrow> os_walk (os_path_join root (''metadata/'' @ n)) (rel @ [n]) sub)
      in if contains_sub ''_mig-'' dirname then
           (if isfile env (os_path_join root (''representations/'' @ dirname @ ''/METS.xml''))
            then Inr s
            else for_each (\<lambda>(dir, drel, entries).
                   for_each (mig_metadata_file env dir drel physical_div) (file_names entries))
                   walked s)
         else for_each (\<lambda>(dir, drel, entries).
                if length (file_names entries) > 0
                then for_each (other_metadata_file env dirname dir drel physical_div) (file_names entries)
                else Inr)
                walked s)"

text \<open>A string between single quotes, as the log messages show names.\<close>

definition quoted :: "string \<Rightarrow> string" where
  "quoted s = CHR 0x27 # s @ [CHR 0x27]"

text \<open>The configuration values the walk uses.\<close>

record gen_cfg =
  packageid :: string
  packagetype :: string

text \<open>
  One file of a directory outside \<open>/<root>/metadata\<close>. The state of the loop is the
  generation state and whether \<open>del subdirectories[:]\<close> has run. Only the last branch
  looks the file group up inside a \<open>try\<close> block that catches \<open>KeyError\<close>.
\<close>

definition other_folder_file :: "os_env \<Rightarrow> gen_cfg \<Rightarrow> path \<Rightarrow> path \<Rightarrow> string list \<Rightarrow> string \<Rightarrow> nat option \<Rightarrow> string \<Rightarrow> gen_state \<times> bool \<Rightarrow> py_error + gen_state \<times> bool" where
  "other_folder_file env cfg root directory rel folder_with_USE physical_div filename st =
     (let (s, pruned) = st
      in if directory = root then Inr (s, pruned)
         else
           (let rel_path_file = rel_of (rel @ [filename])
            in if lower filename = ''mets.xml'' then
                 (case rsplit_slash_1 directory of
                    Inl e \<Rightarrow> Inl e
                  | Inr rep_name \<Rightarrow>
                      (let (pid, s1) = fresh_id env s;
                           metspointer = M ''mptr''
                             [(''LOCTYPE'', ''URL''),
                              (q XLINK_NS ''title'',
                                 ''Mets file describing representation: '' @ rep_name @ '' of ''
                                   @ packagetype cfg @ '': urn:uuid:'' @ packageid cfg @ ''.''),
                              (q XLINK_NS ''href'', rel_path_file),
                              (q XLINK_NS ''type'', ''simple''),
                              (''ID'', pid)]
                       in case append_physical physical_div metspointer s1 of
                            Inl e \<Rightarrow> Inl e
                          | Inr s2 \<Rightarrow>
                              (case lookup_filegroup s2 folder_with_USE of
                                 Inl e \<Rightarrow> Inl e
                               | Inr a \<Rightarrow>
                                   (let (fid, s3) = addFile env (rel @ [filename])
                                                      (os_path_join directory filename) a s2
                                    in case append_physical physical_div (fptr fid) s3 of
                                         Inl e \<Rightarrow> Inl e
                                       | Inr s4 \<Rightarrow> Inr (s4, True)))))
               else if filename \<noteq> [] \<and> endswith directory ''schemas'' then
                 (case lookup_filegroup s folder_with_USE of
                    Inl e \<Rightarrow> Inl e
                  | Inr a \<Rightarrow>
                      (let (fid, s1) = addFile env (rel @ [filename])
                                         (os_path_join directory filename) a s;
                           s2 = s1\<lparr>mets_structmap_schema_div :=
                                     append_kid (mets_structmap_schema_div s1) (fptr fid)\<rparr>
                       in case append_physical physical_div (fptr fid) s2 of
                            Inl e \<Rightarrow> Inl e
                          | Inr s3 \<Rightarrow> Inr (s3, pruned)))
               else if filename \<noteq> [] then
                 (case lookup_filegroup s folder_with_USE of
                    Inl (KeyError k) \<Rightarrow>
                      Inr (logger_msg (''Error looking up '' @ quoted folder_with_USE
                             @ '' element for file '' @ quoted filename) s, pruned)
                  | Inl e \<Rightarrow> Inl e
                  | Inr a \<Rightarrow>
                      (let (fid, s1) = addFile env (rel @ [filename])
                                         (os_path_join directory filename) a s;
                           s2 = s1\<lparr>mets_structmap_content_div :=
                                     append_kid (mets_structmap_content_div s1) (fptr fid)\<rparr>
                       in case append_physical physical_div (fptr fid) s2 of
                            Inl e \<Rightarrow> Inl e
                          | Inr s3 \<Rightarrow> Inr (s3, pruned)))
               else Inr (s, pruned)))"

text \<open>
  The body of the loop over \<open>os.walk(self.root_path)\<close> for one directory: \<open>directory\<close> is
  its path, \<open>rel\<close> the names from the root to it, \<open>entries\<close> its content. The result
  tells whether the walk leaves out the subdirectories.
\<close>

definition process_directory :: "os_env \<Rightarrow> gen_cfg \<Rightarrow> path \<Rightarrow> path \<Rightarrow> string list \<Rightarrow> fsnode list \<Rightarrow> gen_state \<Rightarrow> py_error + gen_state \<times> bool" where
  "process_directory env cfg root directory rel entries s =
     (let folder_with_USE = get_folder_with_USE (PyStr directory);
          path = rel_of rel
      in if path \<noteq> ''representations'' then
           (let (physical_div, s1) =
                  (if path \<noteq> ''.'' then
                     (let (did, s') = fresh_id env s
                      in (Some (length (kids (package_div s'))),
                          s'\<lparr>package_div := append_kid (package_div s')
                                (M ''div'' [(''LABEL'', path), (''ID'', did)])\<rparr>))
                   else (None, s));
                (filenames, pruned) =
                  (if endswith directory ''/metadata'' then ([], True)
                   else (file_names entries, False))
            in if directory = os_path_join root ''metadata'' then
                 (case for_each (conduit_file env directory rel physical_div) filenames s1 of
                    Inl e \<Rightarrow> Inl e
                  | Inr s2 \<Rightarrow>
                      (case for_each (metadata_entry env root rel physical_div) entries s2 of
                         Inl e \<Rightarrow> Inl e
                       | Inr s3 \<Rightarrow> Inr (s3, True)))
               else
                 for_each (other_folder_file env cfg root directory rel folder_with_USE physical_div)
                   filenames (s1, pruned))
         else Inr (s, False))"

text \<open>
  \<open>os.walk\<close> below a directory, top-down: the body runs for a subdirectory, then the walk
  goes into it unless the body emptied \<open>subdirectories\<close>, then on to the next one.
\<close>

fun walk_below :: "os_env \<Rightarrow> gen_cfg \<Rightarrow> path \<Rightarrow> path \<Rightarrow> string list \<Rightarrow> fsnode list \<Rightarrow> gen_state \<Rightarrow> py_error + gen_state" where
  "walk_below env cfg root dirpath rel [] s = Inr s"
| "walk_below env cfg root dirpath rel (File n # es) s = walk_below env cfg root dirpath rel es s"
| "walk_below env cfg root dirpath rel (Dir n sub # es) s =
     (case process_directory env cfg root (os_path_join dirpath n) (rel @ [n]) sub s of
        Inl e \<Rightarrow> Inl e
      | Inr (s1, pruned) \<Rightarrow>
          (case (if pruned then Inr s1
                 else walk_below env cfg root (os_path_join dirpath n) (rel @ [n]) sub s1) of
             Inl e \<Rightarrow> Inl e
           | Inr s2 \<Rightarrow> walk_below env cfg root dirpath rel es s2))"

definition walk_package :: "os_env \<Rightarrow> gen_cfg \<Rightarrow> path \<Rightarrow> fsnode list \<Rightarrow> gen_state \<Rightarrow> py_error + gen_state" where
  "walk_package env cfg root tree s =
     (case process_directory env cfg root root [] tree s of
        Inl e \<Rightarrow> Inl e
      | Inr (s1, pruned) \<Rightarrow>
          if pruned then Inr s1 else walk_below env cfg root root [] tree s1)"

section \<open>createMets\<close>

definition createAgent :: "string \<Rightarrow> string \<Rightarrow> string \<Rightarrow> string \<Rightarrow> string \<Rightarrow> xml" where
  "createAgent role type other_type name note =
     (if other_type \<noteq> [] then
        Elem (q METS_NS ''agent'') [(''ROLE'', role), (''TYPE'', type), (''OTHERTYPE'', other_type)] []
          [M_text ''name'' [] name,
           M_text ''note'' [(q CSIP_NS ''NOTETYPE'', ''SOFTWARE VERSION'')] note]
      else
        Elem (q METS_NS ''agent'') [(''ROLE'', role), (''TYPE'', type)] []
          [M_text ''name'' [] name,
           M_text ''note'' [] note,
           M_text ''note'' [(q CSIP_NS ''NOTETYPE'', ''SOFTWARE VERSION'')] note])"

definition organization_agent :: "string \<Rightarrow> xml" where
  "organization_agent role =
     Elem (q METS_NS ''agent'') [(''ROLE'', role), (''TYPE'', ''ORGANIZATION'')] []
       [M_text ''name'' [] ''E-ARK'']"

text \<open>
  The two schema locations, and the value of the \<open>xsi:schemaLocation\<close> attribute built
  from them.
\<close>

definition mets_schema_location :: "os_env \<Rightarrow> path \<Rightarrow> path \<Rightarrow> string" where
  "mets_schema_location env rp schemafolder =
     (if isfile env (os_path_join schemafolder ''mets.xsd'')
      then relpath env (os_path_join schemafolder ''mets.xsd'') rp
      else default_mets_schema_location)"

definition xlink_schema_location :: "os_env \<Rightarrow> path \<Rightarrow> path \<Rightarrow> string" where
  "xlink_schema_location env rp schemafolder =
     (if isfile env (os_path_join schemafolder ''xlink.xsd'')
      then relpath env (os_path_join schemafolder ''xlink.xsd'') rp
      else default_xlink_schema_location)"

definition schemaLocation_value :: "os_env \<Rightarrow> path \<Rightarrow> path \<Rightarrow> string" where
  "schemaLocation_value env rp schemafolder =
     METS_NS @ '' '' @ mets_schema_location env rp schemafolder @ '' ''
     @ XLINK_NS @ '' '' @ xlink_schema_location env rp schemafolder @ '' ''
     @ CSIP_NS @ '' '' @ default_csip_location"

text \<open>
  The loop over the subdirectories of the root: a new file group for each one that is a
  role token, stored in the dictionary under its name, which replaces what the dictionary
  held there, and appended to the file section. The loop state is the number of uuids
  drawn, the store of file groups, the dictionary and the children of the file section.
\<close>

fun subdir_filegroups :: "os_env \<Rightarrow> string list \<Rightarrow> nat \<times> xml list \<times> (string \<rightharpoonup> nat) \<times> nat list \<Rightarrow> nat \<times> xml list \<times> (string \<rightharpoonup> nat) \<times> nat list" where
  "subdir_filegroups env [] st = st"
| "subdir_filegroups env (subdir # rest) (n, store, groups, sec) =
     (if subdir \<in> set folders_with_USE then
        subdir_filegroups env rest
          (Suc n,
           store @ [M ''fileGrp'' [(''ID'', ''ID'' @ uuid4 env n), (''USE'', subdir)]],
           groups(subdir \<mapsto> length store),
           sec @ [length store])
      else subdir_filegroups env rest (n, store, groups, sec))"

text \<open>
  The METS skeleton, everything \<open>createMets\<close> builds before the walk. The file group of
  the root's own role token is created first, at address \<open>0\<close>, and entered in the
  dictionary only.
\<close>

definition mets_skeleton :: "os_env \<Rightarrow> path \<Rightarrow> fsnode list \<Rightarrow> gen_cfg \<Rightarrow> path \<Rightarrow> string \<Rightarrow> gen_state" where
  "mets_skeleton env rp tree cfg schemafolder parent =
     (let mets_attributes =
            [(''OBJID'', packageid cfg),
             (''LABEL'', ''METS file describing the '' @ packagetype cfg @ '' matching the OBJID.''),
             (''PROFILE'', PROFILE_XML),
             (''TYPE'', ''Databases''),
             (q CSIP_NS ''CONTENTINFORMATIONTYPE'', ''SIARD2''),
             (q XSI_NS ''schemaLocation'', schemaLocation_value env rp schemafolder)];
          hdr = Elem (q METS_NS ''metsHdr'')
                  [(''CREATEDATE'', current_timestamp env), (''RECORDSTATUS'', ''NEW''),
                   (q CSIP_NS ''OAISPACKAGETYPE'', packagetype cfg)] []
                  [createAgent ''CREATOR'' ''OTHER'' ''SOFTWARE'' (application_name env)
                     (''VERSION='' @ application_version env),
                   organization_agent ''ARCHIVIST'',
                   organization_agent ''CREATOR'',
                   organization_agent ''PRESERVATION'',
                   M_text ''metsDocumentID'' [] ''METS.xml''];
          amdSec = M ''amdSec'' [(''ID'', ''ID'' @ uuid4 env 0)];
          fileSec = M ''fileSec'' [(''ID'', ''ID'' @ uuid4 env 1)];
          folder_with_USE = get_folder_with_USE (PyStr rp);
          dominant = M ''fileGrp'' [(''ID'', ''ID'' @ uuid4 env 2), (''USE'', folder_with_USE)];
          (n, store, groups, sec) =
            subdir_filegroups env (dir_names tree)
              (3, [dominant], [folder_with_USE \<mapsto> 0], []);
          earkstructmap = M ''structMap'' [(''LABEL'', ''CSIP''), (''TYPE'', ''PHYSICAL''),
                                           (''ID'', ''ID'' @ uuid4 env n)];
          pdiv = M ''div'' [(''LABEL'', packageid cfg), (''ID'', ''ID'' @ uuid4 env (n + 1))];
          structmap = M ''structMap''
                        [(''LABEL'', ''Simple '' @ packagetype cfg @ '' structuring''),
                         (''TYPE'', ''logical''), (''ID'', ''ID'' @ uuid4 env (n + 2))];
          structmap_div = M ''div'' [(''LABEL'', ''Package structure''),
                                     (''ID'', ''ID'' @ uuid4 env (n + 3))];
          metadata_div = M ''div'' [(''LABEL'', ''metadata files''),
                                    (''ID'', ''ID'' @ uuid4 env (n + 4))];
          schema_div = M ''div'' [(''LABEL'', ''schema files''),
                                  (''ID'', ''ID'' @ uuid4 env (n + 5))];
          content_div = M ''div'' [(''LABEL'', ''content files''),
                                   (''ID'', ''ID'' @ uuid4 env (n + 6))];
          has_parent = (parent \<noteq> []);
          relation =
            (if has_parent then
               Some (Elem (q METS_NS ''structMap'') [(''TYPE'', ''logical''), (''LABEL'', ''parent'')] []
                 [Elem (q METS_NS ''div'')
                    [(''LABEL'', packagetype cfg @ '' parent identifier''),
                     (''ID'', ''ID'' @ uuid4 env (n + 7))] []
                    [M ''mptr''
                       [(''LOCTYPE'', ''OTHER''),
                        (''OTHERLOCTYPE'', ''UUID''),
                        (q XLINK_NS ''title'',
                           ''Referencing the parent '' @ packagetype cfg @ '' of this (''
                             @ packageid cfg @ '') '' @ packagetype cfg @ ''.''),
                        (q XLINK_NS ''href'', parent),
                        (''ID'', ''ID'' @ uuid4 env (n + 8))]]])
             else None)
      in \<lparr>counter = (if has_parent then n + 9 else n + 7),
          root_attrs = mets_attributes,
          mets_hdr = hdr,
          dmdSecs = [],
          mets_amdSec = amdSec,
          mets_fileSec = fileSec,
          fileSec_kids = sec,
          grp_store = store,
          mets_filegroups = groups,
          mets_earkstructmap = earkstructmap,
          package_div = pdiv,
          mets_structmap = structmap,
          mets_structmap_div = structmap_div,
          mets_structmap_metadata_div = metadata_div,
          mets_structmap_schema_div = schema_div,
          mets_structmap_content_div = content_div,
          mets_structmap_relation = relation,
          messages = (if has_parent then [''creating link to parent '' @ packagetype cfg] else [])\<rparr>)"

text \<open>
  The file \<open>createMets\<close> writes: \<open>mets_file_path\<close>, or \<open>METS.xml\<close> under the root when the
  argument is \<open>None\<close> or empty.
\<close>

definition descriptor_path :: "path \<Rightarrow> path option \<Rightarrow> path" where
  "descriptor_path rp mets_file_path =
     (case mets_file_path of
        None \<Rightarrow> os_path_join rp ''METS.xml''
      | Some p \<Rightarrow> if p = [] then os_path_join rp ''METS.xml'' else p)"

text \<open>\<open>mets_data[key]\<close> on the dictionary passed to \<open>createMets\<close>.\<close>

definition dict_item :: "(string \<rightharpoonup> string) \<Rightarrow> string \<Rightarrow> py_error + string" where
  "dict_item d key = (case d key of None \<Rightarrow> Inl (KeyError key) | Some v \<Rightarrow> Inr v)"

text \<open>
  \<open>createMets(mets_data, mets_file_path)\<close> on the package directory \<open>tree\<close>, the entries of
  the existing directory \<open>root_path\<close>. A value \<open>None\<close> in the dictionary is the empty string
  here. The result is the exception raised or the
  generation state at the end, the instance with \<open>mets_data\<close> stored, and the files and
  log left behind; the messages of a run that ends in an exception are not kept. The
  serialised tree is decoded before it is written.
\<close>

definition createMets :: "os_env \<Rightarrow> fsnode list \<Rightarrow> MetsGenerator \<Rightarrow> (string \<rightharpoonup> string) \<Rightarrow> path option \<Rightarrow> world \<Rightarrow> (py_error + gen_state) \<times> MetsGenerator \<times> world" where
  "createMets env tree g md mets_file_path w =
     (let g1 = g\<lparr>mets_data := Some md\<rparr>
      in case dict_item md ''packageid'' of Inl e \<Rightarrow> (Inl e, g1, w) | Inr pid \<Rightarrow>
         case dict_item md ''type'' of Inl e \<Rightarrow> (Inl e, g1, w) | Inr ptype \<Rightarrow>
         case dict_item md ''schemas'' of Inl e \<Rightarrow> (Inl e, g1, w) | Inr schemafolder \<Rightarrow>
         case dict_item md ''parent'' of Inl e \<Rightarrow> (Inl e, g1, w) | Inr parent \<Rightarrow>
           (let cfg = \<lparr>packageid = pid, packagetype = ptype\<rparr>;
                s0 = mets_skeleton env (root_path g1) tree cfg schemafolder parent
            in case walk_package env cfg (root_path g1) tree s0 of
                 Inl e \<Rightarrow> (Inl e, g1, w)
               | Inr s \<Rightarrow>
                   (let str = etree_tostring (document s);
                        out_path = descriptor_path (root_path g1) mets_file_path;
                        w1 = w\<lparr>log := log w @ messages s\<rparr>
                    in case decode_utf8 str of
                         Inl e \<Rightarrow> (Inl e, g1, w1)
                       | Inr txt \<Rightarrow>
                           (case write_text_file out_path txt w1 of
                              (Inl e, w2) \<Rightarrow> (Inl e, g1, w2)
                            | (Inr u, w2) \<Rightarrow> (Inr s, g1, w2)))))"

section \<open>Example package and observations on a descriptor\<close>

definition example_env :: os_env where
  "example_env =
     \<lparr>isfile = (\<lambda>p. p = ''/pkg/schemas/mets.xsd''),
      relpath = (\<lambda>p start. if start = ''/pkg'' \<or> start = ''/pkg/'' then drop 5 p else p),
      uuid4 = (\<lambda>n. replicate n CHR ''u''),
      current_timestamp = ''2020-01-01T00:00:00'',
      guess_type = (\<lambda>p. None),
      get_sha256_hash = (\<lambda>p. ''0f''),
      getsize = (\<lambda>p. 7),
      get_file_ctime_iso_date_str = (\<lambda>p. ''2020-01-01T00:00:00''),
      application_name = ''eatb'',
      application_version = ''1.0''\<rparr>"

text \<open>
  A package whose representation \<open>rep1\<close> has a descriptor of its own, enumerated after
  the file \<open>a.txt\<close>.
\<close>

definition nested_package_tree :: "fsnode list" where
  "nested_package_tree =
     [Dir ''representations'' [Dir ''rep1'' [File ''a.txt'', File ''METS.xml'']]]"

text \<open>
  The divisions of the directories in a descriptor (the children of the package division
  of the physical structMap), and the file groups of its file section.
\<close>

definition physical_divisions :: "xml \<Rightarrow> xml list" where
  "physical_divisions doc =
     concat (map kids (concat (map kids
       (filter (\<lambda>e. tag e = q METS_NS ''structMap'' \<and> get_attr e ''TYPE'' = Some ''PHYSICAL'')
          (kids doc)))))"

definition fileSec_groups :: "xml \<Rightarrow> xml list" where
  "fileSec_groups doc =
     concat (map kids (filter (\<lambda>e. tag e = q METS_NS ''fileSec'') (kids doc)))"

section \<open>Invariants of the walk\<close>

text \<open>
  What the walk leaves as the skeleton made it: \<open>skeleton_kept s0 s\<close> relates the state
  \<open>s\<close> to the state \<open>s0\<close> before the walk.
\<close>

definition skeleton_kept :: "gen_state \<Rightarrow> gen_state \<Rightarrow> bool" where
  "skeleton_kept s0 s \<longleftrightarrow>
     root_attrs s = root_attrs s0 \<and> mets_hdr s = mets_hdr s0
     \<and> mets_fileSec s = mets_fileSec s0 \<and> fileSec_kids s = fileSec_kids s0
     \<and> mets_filegroups s = mets_filegroups s0
     \<and> mets_earkstructmap s = mets_earkstructmap s0
     \<and> mets_structmap s = mets_structmap s0
     \<and> mets_structmap_relation s = mets_structmap_relation s0
     \<and> tag (mets_amdSec s) = tag (mets_amdSec s0)
     \<and> tag (package_div s) = tag (package_div s0)
     \<and> attrs (package_div s) = attrs (package_div s0)
     \<and> map tag (grp_store s) = map tag (grp_store s0)
     \<and> map attrs (grp_store s) = map attrs (grp_store s0)
     \<and> list_all (\<lambda>d. tag d = q METS_NS ''dmdSec'') (dmdSecs s)"

text \<open>
  A file identifier is pointed at when some division of the physical structMap holds a
  file pointer to it. \<open>files_ok_except env X s\<close>: every file entry of every file group
  carries an identifier drawn from the uuid source during this run and is pointed at
  (but for the identifiers in \<open>X\<close>, registered and not yet pointed at), and no two file
  groups share an identifier.
\<close>

definition pointed :: "gen_state \<Rightarrow> string \<Rightarrow> bool" where
  "pointed s fid \<longleftrightarrow> (\<exists>d \<in> set (kids (package_div s)). fptr fid \<in> set (kids d))"

definition files_ok_except :: "os_env \<Rightarrow> string set \<Rightarrow> gen_state \<Rightarrow> bool" where
  "files_ok_except env X s \<longleftrightarrow>
     (\<forall>grp \<in> set (grp_store s). \<forall>f \<in> set (kids grp).
        \<exists>k < counter s. get_attr f ''ID'' = Some (''ID'' @ uuid4 env k)
          \<and> (''ID'' @ uuid4 env k \<in> X \<or> pointed s (''ID'' @ uuid4 env k)))
     \<and> (\<forall>a b. a < length (grp_store s) \<longrightarrow> b < length (grp_store s) \<longrightarrow> a \<noteq> b \<longrightarrow>
          (\<forall>f \<in> set (kids (grp_store s ! a)). \<forall>f' \<in> set (kids (grp_store s ! b)).
             get_attr f ''ID'' \<noteq> get_attr f' ''ID''))"

text \<open>
  The invariant of the walk; \<open>n\<close> is the number of divisions of directories so far. The
  part on file identifiers rests on a uuid source that never repeats.
\<close>

definition gen_inv :: "os_env \<Rightarrow> gen_state \<Rightarrow> nat \<Rightarrow> gen_state \<Rightarrow> bool" where
  "gen_inv env s0 n s \<longleftrightarrow>
     skeleton_kept s0 s \<and> (inj (uuid4 env) \<longrightarrow> files_ok_except env {} s)
     \<and> length (kids (package_div s)) = n"

section \<open>Example runs\<close>

text \<open>
  A package whose root has no role token, with one directory \<open>misc\<close> outside the role
  tokens and one directory \<open>data\<close>; and the run of \<open>createMets\<close> on it and on the empty
  package.
\<close>

definition other_role_tree :: "fsnode list" where
  "other_role_tree = [Dir ''misc'' [File ''a.txt''], Dir ''data'' [File ''b.txt'']]"

definition other_role_run :: "(py_error + gen_state) \<times> MetsGenerator \<times> world" where
  "other_role_run =
     createMets example_env other_role_tree (MetsGenerator_init ''/pkg'') example_mets_data None
       empty_world"

definition other_role_state :: gen_state where
  "other_role_state = projr (fst other_role_run)"



section \<open>Properties of the path classifier\<close>










section \<open>Properties of the descriptor reader\<close>

lemma xpath_attr_empty_iff: "xpath_attr e n = [] \<longleftrightarrow> get_attr e n = None"
proof -
  have "map snd (filter (\<lambda>kv. fst kv = n) xs) = [] \<longleftrightarrow> map_of xs n = None" for xs :: "(string \<times> string) list"
    by (induction xs) auto
  then show ?thesis by (simp add: xpath_attr_def get_attr_def)
qed

text \<open>
  C5. On a loaded descriptor \<open>get_obj_id\<close> returns the value of the root's \<open>OBJID\<close>
  attribute when the attribute query yields exactly one value, and \<open>urn:uuid:none\<close> when
  the attribute is absent or the query yields more than one value; \<open>get_package_type\<close>
  does the same for \<open>TYPE\<close> with \<open>NONE\<close>; neither raises.
\<close>

theorem reader_identifier_and_type:
  assumes "mets_tree pm = Some root"
  shows "(\<forall>v. xpath_attr root ''OBJID'' = [v] \<longrightarrow> get_obj_id pm = Inr v)
       \<and> (get_attr root ''OBJID'' = None \<longrightarrow> get_obj_id pm = Inr ''urn:uuid:none'')
       \<and> (1 < length (xpath_attr root ''OBJID'') \<longrightarrow> get_obj_id pm = Inr ''urn:uuid:none'')
       \<and> (\<forall>v. xpath_attr root ''TYPE'' = [v] \<longrightarrow> get_package_type pm = Inr v)
       \<and> (get_attr root ''TYPE'' = None \<longrightarrow> get_package_type pm = Inr ''NONE'')
       \<and> (1 < length (xpath_attr root ''TYPE'') \<longrightarrow> get_package_type pm = Inr ''NONE'')
       \<and> (\<exists>v. get_obj_id pm = Inr v) \<and> (\<exists>v. get_package_type pm = Inr v)"
proof -
  have absent_id: "get_attr root ''OBJID'' = None \<Longrightarrow> xpath_attr root ''OBJID'' = []"
    by (simp add: xpath_attr_empty_iff)
  have absent_type: "get_attr root ''TYPE'' = None \<Longrightarrow> xpath_attr root ''TYPE'' = []"
    by (simp add: xpath_attr_empty_iff)
  show ?thesis
    using assms absent_id absent_type
    by (auto simp: get_obj_id_def get_package_type_def Let_def)
qed

theorem reader_identifier_and_type_witness:
  "mets_tree \<lparr>root_dir = ''/pkg'', mets_tree = Some example_sibling\<rparr> = Some example_sibling
   \<and> xpath_attr example_sibling ''OBJID'' = [''urn:uuid:parent-1'']
   \<and> get_obj_id \<lparr>root_dir = ''/pkg'', mets_tree = Some example_sibling\<rparr> = Inr ''urn:uuid:parent-1''
   \<and> mets_tree \<lparr>root_dir = ''/pkg'', mets_tree = Some (M ''mets'' [])\<rparr> = Some (M ''mets'' [])
   \<and> get_attr (M ''mets'' []) ''OBJID'' = None
   \<and> get_obj_id \<lparr>root_dir = ''/pkg'', mets_tree = Some (M ''mets'' [])\<rparr> = Inr ''urn:uuid:none''
   \<and> get_attr (M ''mets'' []) ''TYPE'' = None
   \<and> get_package_type \<lparr>root_dir = ''/pkg'', mets_tree = Some (M ''mets'' [])\<rparr> = Inr ''NONE''"
proof -
  have l1: "mets_tree \<lparr>root_dir = ''/pkg'', mets_tree = Some example_sibling\<rparr> = Some example_sibling"
    by simp
  have x1: "xpath_attr example_sibling ''OBJID'' = [''urn:uuid:parent-1'']"
    by (simp add: xpath_attr_def example_sibling_def M_def)
  have l2: "mets_tree \<lparr>root_dir = ''/pkg'', mets_tree = Some (M ''mets'' [])\<rparr> = Some (M ''mets'' [])"
    by simp
  have a2: "get_attr (M ''mets'' []) ''OBJID'' = None" "get_attr (M ''mets'' []) ''TYPE'' = None"
    by (simp_all add: get_attr_def M_def)
  show ?thesis
    using reader_identifier_and_type [OF l1] reader_identifier_and_type [OF l2] l1 x1 l2 a2
    by blast
qed

section \<open>Properties of the relationship linker\<close>

lemma mets_data_item_fresh: "mets_data g = None \<Longrightarrow> mets_data_item g key = Inl TypeError"
  by (simp add: mets_data_item_def)

lemma mets_data_item_type: "mets_data g = Some d \<Longrightarrow> d key = Some v \<Longrightarrow> mets_data_item g key = Inr v"
  by (simp add: mets_data_item_def)

lemma example_sibling_path: "os_path_join ''/pkg'' ''METS.xml'' = ''/pkg/METS.xml''"
  by (simp add: os_path_join_def startswith_def endswith_def)

lemma example_type: "mets_data_item example_generator ''type'' = Inr ''SIP''"
  by (simp add: mets_data_item_def example_generator_def example_mets_data_def)

lemma example_relation_update_ok:
  "\<exists>r. relation_update rel ''SIP'' identifier uid example_sibling = Inr r"
  by (simp add: relation_update_def example_sibling_def M_def find_child_def Let_def)

lemma example_link_raises:
  "link_relation rel example_generator ident uid world_with_sibling
     = (Inl TypeError, world_truncated_sibling)"
proof -
  have ex: "os_path_exists world_with_sibling ''/pkg/METS.xml''"
    by (simp add: os_path_exists_def world_with_sibling_def)
  have pa: "etree_parse world_with_sibling ''/pkg/METS.xml'' = Inr example_sibling"
    by (simp add: etree_parse_def world_with_sibling_def)
  have wr: "write_text_file ''/pkg/METS.xml'' (etree_tostring r) world_with_sibling
              = (Inl TypeError, world_truncated_sibling)" for r
    by (simp add: write_text_file_def etree_tostring_def world_with_sibling_def
        world_truncated_sibling_def)
  have rp: "root_path example_generator = ''/pkg''"
    by (simp add: example_generator_def)
  show ?thesis
    using example_relation_update_ok [of rel ident uid]
    by (auto simp: link_relation_def rp example_sibling_path ex pa wr example_type Let_def)
qed

lemma example_link_truncated:
  "link_relation rel example_generator ident uid world_truncated_sibling
     = (Inl XMLSyntaxError, world_truncated_sibling)"
proof -
  have ex: "os_path_exists world_truncated_sibling ''/pkg/METS.xml''"
    by (simp add: os_path_exists_def world_truncated_sibling_def)
  have pa: "etree_parse world_truncated_sibling ''/pkg/METS.xml'' = Inl XMLSyntaxError"
    by (simp add: etree_parse_def world_truncated_sibling_def)
  have rp: "root_path example_generator = ''/pkg''"
    by (simp add: example_generator_def)
  show ?thesis
    by (simp add: link_relation_def rp example_sibling_path ex pa example_type Let_def)
qed

text \<open>
  Whenever the sibling descriptor exists and parses and the update of its tree goes
  through, the write raises and leaves the file empty.
\<close>

lemma link_relation_write_raises:
  assumes "mets_data_item g ''type'' = Inr t"
    and "files w (os_path_join (root_path g) ''METS.xml'') = Some (XmlText parent_root)"
    and "relation_update rel t ident uid parent_root = Inr parent_root'"
  shows "link_relation rel g ident uid w
           = (Inl TypeError,
              w\<lparr>files := (files w)(os_path_join (root_path g) ''METS.xml'' \<mapsto> OtherText [])\<rparr>)"
  using assms
  by (simp add: link_relation_def Let_def os_path_exists_def etree_parse_def
      write_text_file_def etree_tostring_def)

text \<open>
  The update of the parsed tree alone does what the linker is meant to do: applied
  twice with the same identifier it leaves one relation structMap whose
  \<open>identifiers\<close> division holds two pointer divisions.
\<close>

lemma example_relation_update_twice:
  "relation_update ''child'' ''SIP'' ''urn:uuid:child-1'' ''u1'' example_sibling
     = Inr (append_kid example_sibling
         (Elem (q METS_NS ''structMap'') [(''LABEL'', ''child SIP''), (''TYPE'', ''logical'')] []
           [Elem (q METS_NS ''div'') [(''LABEL'', ''child SIP identifiers'')] []
             [Elem (q METS_NS ''div'') [(''LABEL'', ''child SIP'')] []
                [relation_pointer ''child'' ''SIP'' ''urn:uuid:child-1'' ''u1'']]]))"
  "relation_update ''child'' ''SIP'' ''urn:uuid:child-1'' ''u2''
     (append_kid example_sibling
         (Elem (q METS_NS ''structMap'') [(''LABEL'', ''child SIP''), (''TYPE'', ''logical'')] []
           [Elem (q METS_NS ''div'') [(''LABEL'', ''child SIP identifiers'')] []
             [Elem (q METS_NS ''div'') [(''LABEL'', ''child SIP'')] []
                [relation_pointer ''child'' ''SIP'' ''urn:uuid:child-1'' ''u1'']]]))
     = Inr (append_kid example_sibling
         (Elem (q METS_NS ''structMap'') [(''LABEL'', ''child SIP''), (''TYPE'', ''logical'')] []
           [Elem (q METS_NS ''div'') [(''LABEL'', ''child SIP identifiers'')] []
             [Elem (q METS_NS ''div'') [(''LABEL'', ''child SIP'')] []
                [relation_pointer ''child'' ''SIP'' ''urn:uuid:child-1'' ''u1''],
              Elem (q METS_NS ''div'') [(''LABEL'', ''child SIP'')] []
                [relation_pointer ''child'' ''SIP'' ''urn:uuid:child-1'' ''u2'']]]))"
  by (simp_all add: relation_update_def example_sibling_def M_def find_child_def get_attr_def Let_def)

text \<open>
  C2. With an existing sibling descriptor that parses, both operations raise \<open>TypeError\<close>
  in \<open>write\<close> (the serialised document is \<open>bytes\<close>, the file is opened in text mode),
  and the sibling file is left truncated to the empty file instead of holding the
  updated document.
\<close>

theorem link_existing_sibling_raises:
  "os_path_exists world_with_sibling (os_path_join (root_path example_generator) ''METS.xml'')
   \<and> etree_parse world_with_sibling (os_path_join (root_path example_generator) ''METS.xml'')
       = Inr example_sibling
   \<and> setParentRelation example_generator ''urn:uuid:parent-1'' ''u1'' world_with_sibling
       = (Inl TypeError, world_truncated_sibling)
   \<and> addChildRelation example_generator ''urn:uuid:child-1'' ''u1'' world_with_sibling
       = (Inl TypeError, world_truncated_sibling)"
proof -
  have p: "os_path_join (root_path example_generator) ''METS.xml'' = ''/pkg/METS.xml''"
    by (simp add: example_generator_def example_sibling_path)
  have ex: "os_path_exists world_with_sibling ''/pkg/METS.xml''"
    by (simp add: os_path_exists_def world_with_sibling_def)
  have pa: "etree_parse world_with_sibling ''/pkg/METS.xml'' = Inr example_sibling"
    by (simp add: etree_parse_def world_with_sibling_def)
  show ?thesis
    by (simp add: setParentRelation_def addChildRelation_def p ex pa example_link_raises)
qed

text \<open>
  C9. Two calls of \<open>addChildRelation\<close> with the same identifier against an existing
  sibling descriptor: the first raises \<open>TypeError\<close> and leaves the file empty, the second
  fails to parse the empty file; no pointer node is ever written.
\<close>

theorem link_child_twice_raises:
  "addChildRelation example_generator ''urn:uuid:child-1'' ''u1'' world_with_sibling
     = (Inl TypeError, world_truncated_sibling)
   \<and> addChildRelation example_generator ''urn:uuid:child-1'' ''u2'' world_truncated_sibling
     = (Inl XMLSyntaxError, world_truncated_sibling)
   \<and> files world_truncated_sibling ''/pkg/METS.xml'' = Some (OtherText [])"
proof -
  have "files world_truncated_sibling ''/pkg/METS.xml'' = Some (OtherText [])"
    by (simp add: world_truncated_sibling_def)
  then show ?thesis
    by (simp add: addChildRelation_def example_link_raises example_link_truncated)
qed

text \<open>
  C3 as stated fails: on an instance on which \<open>createMets\<close> never ran, the operation
  raises \<open>TypeError\<close> at \<open>self.mets_data['type']\<close>, while the same call returns normally
  once \<open>mets_data\<close> is set.
\<close>

theorem link_before_generation_counterexample:
  "fst (setParentRelation (MetsGenerator_init ''/pkg'') ''urn:uuid:child-1'' ''u1'' empty_world)
     = Inl TypeError
   \<and> fst (setParentRelation ((MetsGenerator_init ''/pkg'')\<lparr>mets_data := Some example_mets_data\<rparr>)
           ''urn:uuid:child-1'' ''u1'' empty_world) = Inr ()"
  by (simp add: setParentRelation_def link_relation_def mets_data_item_def MetsGenerator_init_def
      example_mets_data_def os_path_exists_def empty_world_def Let_def)

text \<open>
  C3, amended. Both operations read the package type from \<open>mets_data\<close>, which a generation
  run stores: on an instance whose \<open>mets_data\<close> is still \<open>None\<close> they raise \<open>TypeError\<close>
  and change nothing; on instances with the same root path whose \<open>mets_data\<close> hold the same
  \<open>type\<close> entry they behave the same, whatever else the generation stored.
\<close>

theorem link_depends_on_mets_data_type:
  "(mets_data g = None \<longrightarrow>
      setParentRelation g ident uid w = (Inl TypeError, w)
      \<and> addChildRelation g ident uid w = (Inl TypeError, w))
   \<and> (\<forall>d d' t. d ''type'' = Some t \<and> d' ''type'' = Some t \<longrightarrow>
        setParentRelation (g\<lparr>mets_data := Some d\<rparr>) ident uid w
          = setParentRelation (g\<lparr>mets_data := Some d'\<rparr>) ident uid w
        \<and> addChildRelation (g\<lparr>mets_data := Some d\<rparr>) ident uid w
          = addChildRelation (g\<lparr>mets_data := Some d'\<rparr>) ident uid w)"
proof -
  have fresh: "link_relation rel g ident uid w = (Inl TypeError, w)" if "mets_data g = None" for rel
    using that by (simp add: link_relation_def mets_data_item_def Let_def)
  have same: "link_relation rel (g\<lparr>mets_data := Some d\<rparr>) ident uid w
                = link_relation rel (g\<lparr>mets_data := Some d'\<rparr>) ident uid w"
    if "d ''type'' = Some t" "d' ''type'' = Some t" for rel d d' t
    using that by (simp add: link_relation_def mets_data_item_def Let_def)
  show ?thesis
    unfolding setParentRelation_def addChildRelation_def
    using fresh same by blast
qed

theorem link_depends_on_mets_data_type_witness:
  "mets_data (MetsGenerator_init ''/pkg'') = None
   \<and> setParentRelation (MetsGenerator_init ''/pkg'') ''urn:uuid:p'' ''u1'' world_with_sibling
       = (Inl TypeError, world_with_sibling)
   \<and> addChildRelation (MetsGenerator_init ''/pkg'') ''urn:uuid:p'' ''u1'' world_with_sibling
       = (Inl TypeError, world_with_sibling)
   \<and> example_mets_data ''type'' = Some ''SIP'' \<and> [''type'' \<mapsto> ''SIP''] ''type'' = Some ''SIP''
   \<and> setParentRelation ((MetsGenerator_init ''/pkg'')\<lparr>mets_data := Some example_mets_data\<rparr>)
        ''urn:uuid:p'' ''u1'' empty_world
      = setParentRelation ((MetsGenerator_init ''/pkg'')\<lparr>mets_data := Some [''type'' \<mapsto> ''SIP'']\<rparr>)
        ''urn:uuid:p'' ''u1'' empty_world"
proof -
  have n: "mets_data (MetsGenerator_init ''/pkg'') = None"
    by (simp add: MetsGenerator_init_def)
  have t: "example_mets_data ''type'' = Some ''SIP''" "[''type'' \<mapsto> ''SIP''] ''type'' = Some ''SIP''"
    by (simp_all add: example_mets_data_def)
  show ?thesis
    using n t
      link_depends_on_mets_data_type [of "MetsGenerator_init ''/pkg''" "''urn:uuid:p''" "''u1''" world_with_sibling]
      link_depends_on_mets_data_type [of "MetsGenerator_init ''/pkg''" "''urn:uuid:p''" "''u1''" empty_world]
    by blast
qed

text \<open>
  C4 as stated fails: with no sibling file, a call on an instance whose \<open>mets_data\<close> was
  never set raises \<open>TypeError\<close>.
\<close>

theorem link_missing_sibling_counterexample:
  "files empty_world (os_path_join (root_path (MetsGenerator_init ''/ip'')) ''METS.xml'') = None
   \<and> addChildRelation (MetsGenerator_init ''/ip'') ''urn:uuid:child-1'' ''u1'' empty_world
       = (Inl TypeError, empty_world)"
  by (simp add: addChildRelation_def link_relation_def mets_data_item_def MetsGenerator_init_def
      empty_world_def Let_def)

text \<open>
  C4, amended. When the sibling descriptor does not exist, neither operation changes a
  file; on an instance whose \<open>mets_data\<close> has a \<open>type\<close> entry both return without an
  error, and their only effect is one logged message.
\<close>

theorem link_missing_sibling_noop:
  assumes "files w (os_path_join (root_path g) ''METS.xml'') = None"
  shows "files (snd (setParentRelation g ident uid w)) = files w
       \<and> files (snd (addChildRelation g ident uid w)) = files w
       \<and> (\<forall>d t. mets_data g = Some d \<and> d ''type'' = Some t \<longrightarrow>
            setParentRelation g ident uid w
              = (Inr (), w\<lparr>log := log w @ [''Couldn't find the parent '' @ t @ ''s Mets file.'']\<rparr>)
            \<and> addChildRelation g ident uid w
              = (Inr (), w\<lparr>log := log w @ [''Couldn't find the parent '' @ t @ ''s Mets file.'']\<rparr>))"
proof -
  have nofile: "\<not> os_path_exists w (os_path_join (root_path g) ''METS.xml'')"
    using assms by (simp add: os_path_exists_def)
  have unchanged: "files (snd (link_relation rel g ident uid w)) = files w" for rel
    using nofile
    by (simp add: link_relation_def Let_def logger_debug_def split: sum.splits)
  have ok: "link_relation rel g ident uid w
              = (Inr (), w\<lparr>log := log w @ [''Couldn't find the parent '' @ t @ ''s Mets file.'']\<rparr>)"
    if "mets_data g = Some d" "d ''type'' = Some t" for rel d t
    using nofile mets_data_item_type [OF that]
    by (simp add: link_relation_def Let_def logger_debug_def)
  show ?thesis
    unfolding setParentRelation_def addChildRelation_def
    using unchanged ok by blast
qed

theorem link_missing_sibling_noop_witness:
  "files empty_world (os_path_join (root_path example_generator) ''METS.xml'') = None
   \<and> mets_data example_generator = Some example_mets_data
   \<and> example_mets_data ''type'' = Some ''SIP''
   \<and> setParentRelation example_generator ''urn:uuid:child-1'' ''u1'' empty_world
       = (Inr (), empty_world\<lparr>log := log empty_world @ [''Couldn't find the parent '' @ ''SIP'' @ ''s Mets file.'']\<rparr>)
   \<and> files (snd (setParentRelation example_generator ''urn:uuid:child-1'' ''u1'' empty_world))
       = files empty_world"
proof -
  have a: "files empty_world (os_path_join (root_path example_generator) ''METS.xml'') = None"
    by (simp add: empty_world_def)
  have b: "mets_data example_generator = Some example_mets_data"
    by (simp add: example_generator_def)
  have c: "example_mets_data ''type'' = Some ''SIP''"
    by (simp add: example_mets_data_def)
  show ?thesis
    using a b c link_missing_sibling_noop [OF a, of "''urn:uuid:child-1''" "''u1''"]
    by blast
qed

section \<open>Properties of createMets on example packages\<close>

text \<open>
  C1. In the package \<open>nested_package_tree\<close> the directory \<open>representations/rep1\<close> holds a
  descriptor \<open>METS.xml\<close> that is enumerated after the file \<open>a.txt\<close>. The generation
  succeeds and writes the descriptor, and the physical division of that directory has
  the children file pointer, package-reference pointer, file pointer: the \<open>mptr\<close> is not
  the first child.
\<close>

theorem nested_descriptor_pointer_not_first:
  "(case createMets example_env nested_package_tree (MetsGenerator_init ''/pkg'')
           example_mets_data None empty_world of
      (Inr s, g, w) \<Rightarrow>
        files w ''/pkg/METS.xml'' = Some (XmlText (document s))
        \<and> map (\<lambda>d. (get_attr d ''LABEL'', map tag (kids d))) (physical_divisions (document s))
            = [(Some ''representations/rep1'',
                [q METS_NS ''fptr'', q METS_NS ''mptr'', q METS_NS ''fptr''])]
    | (Inl e, g, w) \<Rightarrow> False)"
  by code_simp

text \<open>
  C7. A schema file, and a nested descriptor, in a directory whose role token has no
  file group: \<open>createMets\<close> ends with \<open>KeyError\<close> and writes no descriptor. An ordinary
  file in such a directory is reported and skipped, and the descriptor is written.
\<close>

theorem unregistered_role_aborts_generation:
  "(case createMets example_env [Dir ''docs'' [Dir ''schemas'' [File ''a.xsd'']]]
          (MetsGenerator_init ''/pkg'') example_mets_data None empty_world of
      (Inl e, g, w) \<Rightarrow> e = KeyError ''schemas'' \<and> files w ''/pkg/METS.xml'' = None
    | (Inr s, g, w) \<Rightarrow> False)
   \<and> (case createMets example_env [Dir ''docs'' [Dir ''data'' [File ''METS.xml'']]]
          (MetsGenerator_init ''/pkg'') example_mets_data None empty_world of
      (Inl e, g, w) \<Rightarrow> e = KeyError ''data'' \<and> files w ''/pkg/METS.xml'' = None
    | (Inr s, g, w) \<Rightarrow> False)
   \<and> (case createMets example_env [Dir ''docs'' [Dir ''data'' [File ''a.txt'']]]
          (MetsGenerator_init ''/pkg'') example_mets_data None empty_world of
      (Inl e, g, w) \<Rightarrow> False
    | (Inr s, g, w) \<Rightarrow>
        files w ''/pkg/METS.xml'' = Some (XmlText (document s))
        \<and> messages s = [''Error looking up '' @ quoted ''data'' @ '' element for file '' @ quoted ''a.txt''])"
  by code_simp

section \<open>The walk keeps its invariant\<close>

lemma for_each_inv:
  assumes step: "\<And>x s s'. I s \<Longrightarrow> body x s = Inr s' \<Longrightarrow> I s'"
  shows "I s \<Longrightarrow> for_each body xs s = Inr s' \<Longrightarrow> I s'"
proof (induction xs arbitrary: s)
  case Nil
  then show ?case by simp
next
  case (Cons x xs)
  then show ?case
    by (auto split: sum.splits dest: step)
qed

lemma walk_below_inv:
  "(\<And>directory rel entries s s' pr.
      I s \<Longrightarrow> process_directory env cfg root directory rel entries s = Inr (s', pr) \<Longrightarrow> I s')
   \<Longrightarrow> I s \<Longrightarrow> walk_below env cfg root dirpath rel es s = Inr s' \<Longrightarrow> I s'"
proof (induction env cfg root dirpath rel es s arbitrary: s' rule: walk_below.induct)
  case (1 env cfg root dirpath rel s)
  then show ?case by simp
next
  case (2 env cfg root dirpath rel n es s)
  then show ?case by simp
next
  case (3 env cfg root dirpath rel n sub es s)
  note step = "3.prems"(1)
  from "3.prems"(3) obtain s1 pruned where
    pd: "process_directory env cfg root (os_path_join dirpath n) (rel @ [n]) sub s = Inr (s1, pruned)"
    by (auto split: sum.splits)
  have i1: "I s1" using step [OF "3.prems"(2) pd] .
  from "3.prems"(3) pd obtain s2 where
    mid: "(if pruned then Inr s1
           else walk_below env cfg root (os_path_join dirpath n) (rel @ [n]) sub s1) = Inr s2"
    and rest: "walk_below env cfg root dirpath rel es s2 = Inr s'"
    by (auto split: sum.splits)
  have i2: "I s2"
  proof (cases pruned)
    case True
    with mid i1 show ?thesis by simp
  next
    case False
    with mid have "walk_below env cfg root (os_path_join dirpath n) (rel @ [n]) sub s1 = Inr s2"
      by simp
    from "3.IH"(1) [OF pd refl False step i1 this] show ?thesis .
  qed
  from "3.IH"(2) [OF pd refl mid step i2 rest] show ?case .
qed

lemma tag_append_kid [simp]: "tag (append_kid e k) = tag e"
  by (cases e) simp

lemma attrs_append_kid [simp]: "attrs (append_kid e k) = attrs e"
  by (cases e) simp

lemma kids_append_kid [simp]: "kids (append_kid e k) = kids e @ [k]"
  by (cases e) simp

lemma map_update_same: "f y = f (xs ! a) \<Longrightarrow> map f (xs[a := y]) = map f xs"
proof (induction xs arbitrary: a)
  case Nil
  then show ?case by simp
next
  case (Cons x xs)
  then show ?case by (cases a) auto
qed

lemma files_ok_except_step:
  assumes ok: "files_ok_except env X s"
    and store: "grp_store s' = grp_store s"
    and cnt: "counter s \<le> counter s'"
    and pts: "\<And>x. x \<in> X \<or> pointed s x \<Longrightarrow> x \<in> X' \<or> pointed s' x"
  shows "files_ok_except env X' s'"
proof -
  have a: "\<exists>k < counter s'. get_attr f ''ID'' = Some (''ID'' @ uuid4 env k)
          \<and> (''ID'' @ uuid4 env k \<in> X' \<or> pointed s' (''ID'' @ uuid4 env k))"
    if "grp \<in> set (grp_store s')" "f \<in> set (kids grp)" for grp f
  proof -
    from ok that store obtain k where k: "k < counter s"
      "get_attr f ''ID'' = Some (''ID'' @ uuid4 env k)"
      "''ID'' @ uuid4 env k \<in> X \<or> pointed s (''ID'' @ uuid4 env k)"
      unfolding files_ok_except_def by metis
    from pts [OF k(3)] k(1,2) cnt show ?thesis
      by (intro exI [of _ k]) simp
  qed
  have b: "\<forall>a b. a < length (grp_store s') \<longrightarrow> b < length (grp_store s') \<longrightarrow> a \<noteq> b \<longrightarrow>
          (\<forall>f \<in> set (kids (grp_store s' ! a)). \<forall>f' \<in> set (kids (grp_store s' ! b)).
             get_attr f ''ID'' \<noteq> get_attr f' ''ID'')"
    using ok store unfolding files_ok_except_def by simp
  show ?thesis
    unfolding files_ok_except_def using a b by blast
qed

lemma pointed_kept:
  assumes "pointed s x" "append_physical pd y s = Inr s'"
  shows "pointed s' x"
proof -
  from assms(2) obtain i where pd: "pd = Some i"
    and s': "kids (package_div s') = (kids (package_div s))[i := append_kid (kids (package_div s) ! i) y]"
    by (auto simp: append_physical_def split: option.splits)
  from assms(1) obtain d where d: "d \<in> set (kids (package_div s))" "fptr x \<in> set (kids d)"
    unfolding pointed_def by blast
  from d(1) obtain j where jl: "j < length (kids (package_div s))" and jd: "kids (package_div s) ! j = d"
    by (auto simp: in_set_conv_nth)
  have j: "j < length (kids (package_div s))"
    "fptr x \<in> set (kids (kids (package_div s) ! j))"
    using jl jd d(2) by simp_all
  have "fptr x \<in> set (kids (kids (package_div s') ! j))"
    using j s' by (cases "j = i") simp_all
  moreover have "j < length (kids (package_div s'))" using j s' by simp
  ultimately show ?thesis unfolding pointed_def by (metis nth_mem)
qed

lemma pointed_new:
  assumes "append_physical (Some i) (fptr x) s = Inr s'" "i < length (kids (package_div s))"
  shows "pointed s' x"
proof -
  from assms(1) have
    s': "kids (package_div s') = (kids (package_div s))[i := append_kid (kids (package_div s) ! i) (fptr x)]"
    by (auto simp: append_physical_def)
  have "fptr x \<in> set (kids (kids (package_div s') ! i))"
    using assms(2) s' by simp
  moreover have "i < length (kids (package_div s'))" using assms(2) s' by simp
  ultimately show ?thesis unfolding pointed_def by (metis nth_mem)
qed

lemma append_physical_fields:
  assumes "append_physical pd y s = Inr s'"
  shows "grp_store s' = grp_store s" "counter s' = counter s"
    "length (kids (package_div s')) = length (kids (package_div s))"
    "skeleton_kept s0 s \<Longrightarrow> skeleton_kept s0 s'"
  using assms
  by (auto simp: append_physical_def skeleton_kept_def split: option.splits)

lemma append_physical_ok:
  assumes "files_ok_except env X s" "append_physical pd y s = Inr s'"
  shows "files_ok_except env X s'"
  using assms(1)
proof (rule files_ok_except_step)
  show "grp_store s' = grp_store s" "counter s \<le> counter s'"
    using append_physical_fields [OF assms(2)] by simp_all
  show "x \<in> X \<or> pointed s' x" if "x \<in> X \<or> pointed s x" for x
    using that pointed_kept [OF _ assms(2)] by blast
qed

lemma append_physical_ok_new:
  assumes "files_ok_except env X s" "append_physical pd (fptr fid) s = Inr s'"
    "\<forall>i. pd = Some i \<longrightarrow> i < length (kids (package_div s))"
  shows "files_ok_except env (X - {fid}) s'"
  using assms(1)
proof (rule files_ok_except_step)
  show "grp_store s' = grp_store s" "counter s \<le> counter s'"
    using append_physical_fields [OF assms(2)] by simp_all
  from assms(2) obtain i where pd: "pd = Some i"
    by (auto simp: append_physical_def split: option.splits)
  with assms(3) have i: "i < length (kids (package_div s))" by simp
  show "x \<in> X - {fid} \<or> pointed s' x" if "x \<in> X \<or> pointed s x" for x
    using that pointed_kept [OF _ assms(2)] pointed_new [OF assms(2) [unfolded pd] i] by blast
qed

lemma mets_file_element_ID: "get_attr (mets_file_element env rel fn fid) ''ID'' = Some fid"
  by (simp add: mets_file_element_def Let_def get_attr_def M_def)

lemma addFile_eq:
  "\<exists>f. get_attr f ''ID'' = Some (''ID'' @ uuid4 env (counter s))
     \<and> addFile env rel fn a s =
         (''ID'' @ uuid4 env (counter s),
          s\<lparr>counter := Suc (counter s),
            grp_store := (grp_store s)[a := append_kid (grp_store s ! a) f]\<rparr>)"
  by (rule exI [of _ "mets_file_element env rel fn (''ID'' @ uuid4 env (counter s))"])
     (simp add: addFile_def fresh_id_def mets_file_element_ID)

lemma addFile_fields:
  assumes "addFile env rel fn a s = (fid, s')"
  shows "package_div s' = package_div s" "counter s' = Suc (counter s)"
    "skeleton_kept s0 s \<Longrightarrow> skeleton_kept s0 s'"
proof -
  from addFile_eq [of env s rel fn a] assms obtain f where
    s': "s' = s\<lparr>counter := Suc (counter s),
            grp_store := (grp_store s)[a := append_kid (grp_store s ! a) f]\<rparr>"
    by auto
  show "package_div s' = package_div s" "counter s' = Suc (counter s)"
    by (simp_all add: s')
  show "skeleton_kept s0 s'" if "skeleton_kept s0 s"
    using that by (simp add: s' skeleton_kept_def map_update_same)
qed

lemma addFile_ok:
  assumes ok: "files_ok_except env X s" and inj: "inj (uuid4 env)"
    and add: "addFile env rel fn a s = (fid, s')"
  shows "files_ok_except env (insert fid X) s'"
proof -
  from addFile_eq [of env s rel fn a] add obtain f where
    fid: "fid = ''ID'' @ uuid4 env (counter s)"
    and f: "get_attr f ''ID'' = Some fid"
    and s': "s' = s\<lparr>counter := Suc (counter s),
            grp_store := (grp_store s)[a := append_kid (grp_store s ! a) f]\<rparr>"
    by auto
  let ?st = "grp_store s"
  have old: "\<exists>k < counter s. get_attr g ''ID'' = Some (''ID'' @ uuid4 env k)
          \<and> (''ID'' @ uuid4 env k \<in> X \<or> pointed s (''ID'' @ uuid4 env k))"
    if "b < length ?st" "g \<in> set (kids (?st ! b))" for b g
    using ok that unfolding files_ok_except_def by (metis nth_mem)
  have old_ne: "get_attr g ''ID'' \<noteq> Some fid" if "b < length ?st" "g \<in> set (kids (?st ! b))" for b g
  proof -
    from old [OF that] obtain k where "k < counter s" "get_attr g ''ID'' = Some (''ID'' @ uuid4 env k)"
      by blast
    moreover have "uuid4 env k \<noteq> uuid4 env (counter s)" if "k < counter s" for k
      using inj that by (auto dest: injD)
    ultimately show ?thesis by (simp add: fid)
  qed
  have pt: "pointed s' x = pointed s x" for x
    by (simp add: pointed_def s')
  have len: "length (grp_store s') = length ?st" by (simp add: s')
  have kids': "set (kids (grp_store s' ! b)) = (if b = a then insert f (set (kids (?st ! b))) else set (kids (?st ! b)))"
    if "b < length ?st" for b
    using that by (simp add: s' nth_list_update)
  have part1: "\<exists>k < counter s'. get_attr g ''ID'' = Some (''ID'' @ uuid4 env k)
          \<and> (''ID'' @ uuid4 env k \<in> insert fid X \<or> pointed s' (''ID'' @ uuid4 env k))"
    if "grp \<in> set (grp_store s')" "g \<in> set (kids grp)" for grp g
  proof -
    from that(1) obtain b where b: "b < length ?st" "grp = grp_store s' ! b"
      using len by (metis in_set_conv_nth)
    show ?thesis
    proof (cases "g = f \<and> b = a")
      case True
      then show ?thesis using f fid by (intro exI [of _ "counter s"]) (simp add: s')
    next
      case False
      with that(2) b kids' [OF b(1)] have "g \<in> set (kids (?st ! b))"
        by (auto split: if_splits)
      from old [OF b(1) this] obtain k where "k < counter s"
        "get_attr g ''ID'' = Some (''ID'' @ uuid4 env k)"
        "''ID'' @ uuid4 env k \<in> X \<or> pointed s (''ID'' @ uuid4 env k)" by blast
      then show ?thesis by (intro exI [of _ k]) (simp add: s' pt [unfolded s'])
    qed
  qed
  have part2: "get_attr g ''ID'' \<noteq> get_attr g' ''ID''"
    if bl: "b < length (grp_store s')" and cl: "c < length (grp_store s')" and bc: "b \<noteq> c"
      and gb: "g \<in> set (kids (grp_store s' ! b))" and gc: "g' \<in> set (kids (grp_store s' ! c))"
    for b c g g'
  proof -
    have b: "b < length ?st" and c: "c < length ?st" using bl cl len by simp_all
    have disj: "get_attr h ''ID'' \<noteq> get_attr h' ''ID''"
      if "h \<in> set (kids (?st ! b))" "h' \<in> set (kids (?st ! c))" for h h'
      using ok b c bc that unfolding files_ok_except_def by blast
    consider "g \<in> set (kids (?st ! b))" "g' \<in> set (kids (?st ! c))"
      | "g = f" "b = a" "g' \<in> set (kids (?st ! c))"
      | "g' = f" "c = a" "g \<in> set (kids (?st ! b))"
      using bc gb gc kids' [OF b] kids' [OF c] by (auto split: if_splits)
    then show ?thesis
    proof cases
      case 1
      then show ?thesis using disj by blast
    next
      case 2
      then show ?thesis using old_ne [OF c] f by metis
    next
      case 3
      then show ?thesis using old_ne [OF b] f by metis
    qed
  qed
  show ?thesis
    unfolding files_ok_except_def using part1 part2 by blast
qed

lemma files_ok_except_same:
  assumes "files_ok_except env X s" "grp_store s' = grp_store s" "counter s \<le> counter s'"
    "package_div s' = package_div s"
  shows "files_ok_except env X s'"
  using assms(1,2,3)
proof (rule files_ok_except_step)
  show "x \<in> X \<or> pointed s' x" if "x \<in> X \<or> pointed s x" for x
    using that assms(4) by (simp add: pointed_def)
qed

lemma gen_inv_same:
  assumes "gen_inv env s0 n s" "grp_store s' = grp_store s" "counter s \<le> counter s'"
    "package_div s' = package_div s" "skeleton_kept s0 s'"
  shows "gen_inv env s0 n s'"
proof -
  have "files_ok_except env {} s'" if "inj (uuid4 env)"
    using assms(1-4) that
    by (intro files_ok_except_same [of env "{}" s s']) (simp_all add: gen_inv_def)
  then show ?thesis using assms(1,4,5) by (simp add: gen_inv_def)
qed

lemma gen_inv_append_physical:
  assumes "gen_inv env s0 n s" "append_physical pd y s = Inr s'"
  shows "gen_inv env s0 n s'"
proof -
  have "files_ok_except env {} s'" if "inj (uuid4 env)"
    using assms(1) that by (intro append_physical_ok [OF _ assms(2)]) (simp add: gen_inv_def)
  moreover have "skeleton_kept s0 s'"
    using assms(1) by (intro append_physical_fields(4) [OF assms(2)]) (simp add: gen_inv_def)
  moreover have "length (kids (package_div s')) = n"
    using assms(1) append_physical_fields(3) [OF assms(2)] by (simp add: gen_inv_def)
  ultimately show ?thesis by (simp add: gen_inv_def)
qed

lemma skeleton_kept_logger_msg: "skeleton_kept s0 s \<Longrightarrow> skeleton_kept s0 (logger_msg m s)"
  by (simp add: logger_msg_def skeleton_kept_def)

lemma gen_inv_logger_msg: "gen_inv env s0 n s \<Longrightarrow> gen_inv env s0 n (logger_msg m s)"
proof (rule gen_inv_same)
  show "grp_store (logger_msg m s) = grp_store s" "counter s \<le> counter (logger_msg m s)"
    "package_div (logger_msg m s) = package_div s"
    by (simp_all add: logger_msg_def)
  show "skeleton_kept s0 (logger_msg m s)" if "gen_inv env s0 n s"
    using that by (simp add: gen_inv_def skeleton_kept_logger_msg)
qed

lemma add_dmdSec_eq:
  "add_dmdSec env dir rel filename pd s =
     append_physical pd (fptr (''ID'' @ uuid4 env (Suc (counter s))))
       (s\<lparr>counter := Suc (Suc (counter s)),
          dmdSecs := append_kid
              (M ''dmdSec'' [(''ID'', ''ID'' @ uuid4 env (counter s)),
                             (''CREATED'', current_timestamp env), (''STATUS'', ''CURRENT'')])
              (M ''mdRef'' (make_mdref env dir rel filename (''ID'' @ uuid4 env (Suc (counter s))) ''OTHER''))
            # dmdSecs s,
          mets_structmap_metadata_div :=
            append_kid (mets_structmap_metadata_div s) (fptr (''ID'' @ uuid4 env (Suc (counter s))))\<rparr>)"
  by (simp add: add_dmdSec_def fresh_id_def Let_def)

lemma add_dmdSec_inv:
  assumes "gen_inv env s0 n s" "add_dmdSec env dir rel filename pd s = Inr s'"
  shows "gen_inv env s0 n s'"
proof -
  let ?s4 = "s\<lparr>counter := Suc (Suc (counter s)),
          dmdSecs := append_kid
              (M ''dmdSec'' [(''ID'', ''ID'' @ uuid4 env (counter s)),
                             (''CREATED'', current_timestamp env), (''STATUS'', ''CURRENT'')])
              (M ''mdRef'' (make_mdref env dir rel filename (''ID'' @ uuid4 env (Suc (counter s))) ''OTHER''))
            # dmdSecs s,
          mets_structmap_metadata_div :=
            append_kid (mets_structmap_metadata_div s) (fptr (''ID'' @ uuid4 env (Suc (counter s))))\<rparr>"
  have kept: "skeleton_kept s0 ?s4"
    using assms(1) by (simp add: gen_inv_def skeleton_kept_def M_def)
  have "gen_inv env s0 n ?s4"
    using assms(1)
  proof (rule gen_inv_same)
    show "skeleton_kept s0 ?s4" by (rule kept)
  qed simp_all
  moreover have "append_physical pd (fptr (''ID'' @ uuid4 env (Suc (counter s)))) ?s4 = Inr s'"
    using assms(2) by (simp only: add_dmdSec_eq)
  ultimately show ?thesis by (rule gen_inv_append_physical)
qed

lemma add_digiprovMD_eq:
  "add_digiprovMD env status dir rel filename mdtype pd s =
     append_physical pd (fptr (''ID'' @ uuid4 env (Suc (counter s))))
       (s\<lparr>counter := Suc (Suc (counter s)),
          mets_amdSec := append_kid (mets_amdSec s)
            (append_kid
              (M ''digiprovMD''
                 (if status then [(''ID'', ''ID'' @ uuid4 env (counter s)), (''STATUS'', ''CURRENT'')]
                  else [(''ID'', ''ID'' @ uuid4 env (counter s))]))
              (M ''mdRef'' (make_mdref env dir rel filename (''ID'' @ uuid4 env (Suc (counter s))) mdtype))),
          mets_structmap_metadata_div :=
            append_kid (mets_structmap_metadata_div s) (fptr (''ID'' @ uuid4 env (Suc (counter s))))\<rparr>)"
  by (simp add: add_digiprovMD_def fresh_id_def Let_def)

lemma add_digiprovMD_inv:
  assumes "gen_inv env s0 n s" "add_digiprovMD env status dir rel filename mdtype pd s = Inr s'"
  shows "gen_inv env s0 n s'"
proof -
  let ?s4 = "s\<lparr>counter := Suc (Suc (counter s)),
          mets_amdSec := append_kid (mets_amdSec s)
            (append_kid
              (M ''digiprovMD''
                 (if status then [(''ID'', ''ID'' @ uuid4 env (counter s)), (''STATUS'', ''CURRENT'')]
                  else [(''ID'', ''ID'' @ uuid4 env (counter s))]))
              (M ''mdRef'' (make_mdref env dir rel filename (''ID'' @ uuid4 env (Suc (counter s))) mdtype))),
          mets_structmap_metadata_div :=
            append_kid (mets_structmap_metadata_div s) (fptr (''ID'' @ uuid4 env (Suc (counter s))))\<rparr>"
  have kept: "skeleton_kept s0 ?s4"
    using assms(1) by (simp add: gen_inv_def skeleton_kept_def)
  have "gen_inv env s0 n ?s4"
    using assms(1)
  proof (rule gen_inv_same)
    show "skeleton_kept s0 ?s4" by (rule kept)
  qed simp_all
  moreover have "append_physical pd (fptr (''ID'' @ uuid4 env (Suc (counter s)))) ?s4 = Inr s'"
    using assms(2) by (simp only: add_digiprovMD_eq)
  ultimately show ?thesis by (rule gen_inv_append_physical)
qed

lemma conduit_file_inv:
  "gen_inv env s0 n s \<Longrightarrow> conduit_file env directory rel pd filename s = Inr s' \<Longrightarrow> gen_inv env s0 n s'"
  by (auto simp: conduit_file_def split: if_splits dest: add_digiprovMD_inv)

lemma mig_metadata_file_inv:
  "gen_inv env s0 n s \<Longrightarrow> mig_metadata_file env dir rel pd filename s = Inr s' \<Longrightarrow> gen_inv env s0 n s'"
  by (auto simp: mig_metadata_file_def split: if_splits
      dest: add_digiprovMD_inv add_dmdSec_inv intro: gen_inv_logger_msg)

lemma other_metadata_file_inv:
  "gen_inv env s0 n s \<Longrightarrow> other_metadata_file env dirname dir rel pd filename s = Inr s' \<Longrightarrow> gen_inv env s0 n s'"
  by (auto simp: other_metadata_file_def split: if_splits
      dest: add_digiprovMD_inv add_dmdSec_inv intro: gen_inv_logger_msg)

lemma metadata_entry_inv:
  assumes "gen_inv env s0 n s" "metadata_entry env root rel pd entry s = Inr s'"
  shows "gen_inv env s0 n s'"
proof -
  have mig: "gen_inv env s0 n t'"
    if "gen_inv env s0 n t"
       "(case x of (dir, drel, entries) \<Rightarrow>
           for_each (mig_metadata_file env dir drel pd) (file_names entries)) t = Inr t'" for x t t'
  proof -
    obtain dir drel entries where x: "x = (dir, drel, entries)" by (cases x) auto
    from that(2) have "for_each (mig_metadata_file env dir drel pd) (file_names entries) t = Inr t'"
      by (simp add: x)
    with that(1) show ?thesis
      by (rule for_each_inv [where I = "gen_inv env s0 n", rotated]) (rule mig_metadata_file_inv)
  qed
  have oth: "gen_inv env s0 n t'"
    if "gen_inv env s0 n t"
       "(case x of (dir, drel, entries) \<Rightarrow>
           if length (file_names entries) > 0
           then for_each (other_metadata_file env dirname dir drel pd) (file_names entries)
           else Inr) t = Inr t'" for x t t' dirname
  proof -
    obtain dir drel entries where x: "x = (dir, drel, entries)" by (cases x) auto
    show ?thesis
    proof (cases "length (file_names entries) > 0")
      case True
      with that(2) have "for_each (other_metadata_file env dirname dir drel pd) (file_names entries) t = Inr t'"
        by (simp add: x)
      with that(1) show ?thesis
        by (rule for_each_inv [where I = "gen_inv env s0 n", rotated]) (rule other_metadata_file_inv)
    next
      case False
      with that show ?thesis by (simp add: x)
    qed
  qed
  define walked where "walked = (case entry of
                      File n \<Rightarrow> []
                    | Dir n sub \<Rightarrow> os_walk (os_path_join root (''metadata/'' @ n)) (rel @ [n]) sub)"
  show ?thesis
  proof (cases "contains_sub ''_mig-'' (entry_name entry)")
    case mig_name: True
    show ?thesis
    proof (cases "isfile env (os_path_join root (''representations/'' @ entry_name entry @ ''/METS.xml''))")
      case True
      with mig_name assms(2) have "s' = s"
        by (simp add: metadata_entry_def Let_def)
      with assms(1) show ?thesis by simp
    next
      case False
      with mig_name assms(2) have
        "for_each (\<lambda>(dir, drel, entries).
           for_each (mig_metadata_file env dir drel pd) (file_names entries)) walked s = Inr s'"
        by (simp add: metadata_entry_def Let_def walked_def)
      with assms(1) show ?thesis
        by (rule for_each_inv [where I = "gen_inv env s0 n", rotated]) (rule mig)
    qed
  next
    case False
    with assms(2) have
      "for_each (\<lambda>(dir, drel, entries).
                if length (file_names entries) > 0
                then for_each (other_metadata_file env (entry_name entry) dir drel pd) (file_names entries)
                else Inr) walked s = Inr s'"
      by (simp add: metadata_entry_def Let_def walked_def)
    with assms(1) show ?thesis
      by (rule for_each_inv [where I = "gen_inv env s0 n", rotated]) (rule oth)
  qed
qed

lemma fresh_id_inv:
  assumes "gen_inv env s0 n s" "fresh_id env s = (i, s1)"
  shows "gen_inv env s0 n s1"
proof -
  have s1: "s1 = s\<lparr>counter := Suc (counter s)\<rparr>"
    using assms(2) by (auto simp: fresh_id_def)
  have kept: "skeleton_kept s0 s1" using assms(1) by (simp add: s1 gen_inv_def skeleton_kept_def)
  from assms(1) show ?thesis
  proof (rule gen_inv_same)
    show "skeleton_kept s0 s1" by (rule kept)
  qed (simp_all add: s1)
qed

lemma register_file:
  assumes inv: "gen_inv env s0 n s"
    and pdv: "\<forall>i. pd = Some i \<longrightarrow> i < n"
    and add: "addFile env relf fn a s = (fid, s1)"
    and mid: "grp_store s2 = grp_store s1" "counter s2 = counter s1"
      "package_div s2 = package_div s1" "skeleton_kept s0 s1 \<Longrightarrow> skeleton_kept s0 s2"
    and ap: "append_physical pd (fptr fid) s2 = Inr s3"
  shows "gen_inv env s0 n s3"
proof -
  from inv have kept: "skeleton_kept s0 s"
    and len: "length (kids (package_div s)) = n"
    by (simp_all add: gen_inv_def)
  have len2: "length (kids (package_div s2)) = n"
    using len addFile_fields(1) [OF add] mid(3) by simp
  have ok3: "files_ok_except env {} s3" if inj: "inj (uuid4 env)"
  proof -
    from inv inj have ok: "files_ok_except env {} s" by (simp add: gen_inv_def)
    have ok1: "files_ok_except env {fid} s1"
      using addFile_ok [OF ok inj add] by simp
    have ok2: "files_ok_except env {fid} s2"
      using ok1 mid(1) by (rule files_ok_except_same) (simp_all add: mid)
    have "files_ok_except env ({fid} - {fid}) s3"
      using ok2 ap by (rule append_physical_ok_new) (simp add: len2 pdv)
    then show ?thesis by simp
  qed
  have kept3: "skeleton_kept s0 s3"
    using append_physical_fields(4) [OF ap] mid(4) addFile_fields(3) [OF add] kept by blast
  have len3: "length (kids (package_div s3)) = n"
    using append_physical_fields(3) [OF ap] len2 by simp
  show ?thesis using ok3 kept3 len3 by (simp add: gen_inv_def)
qed

lemma other_folder_file_mets:
  assumes "directory \<noteq> root" "lower filename = ''mets.xml''"
    and "other_folder_file env cfg root directory rel role pd filename (s, pr) = Inr (s', pr')"
  obtains pid sA mp s2 a fid s3 where
      "fresh_id env s = (pid, sA)"
      "append_physical pd mp sA = Inr s2"
      "addFile env (rel @ [filename]) (os_path_join directory filename) a s2 = (fid, s3)"
      "append_physical pd (fptr fid) s3 = Inr s'"
  using assms
  by (auto simp: other_folder_file_def Let_def split: sum.splits prod.splits)

lemma other_folder_file_schema:
  assumes "directory \<noteq> root" "lower filename \<noteq> ''mets.xml''"
    and "filename \<noteq> [] \<and> endswith directory ''schemas''"
    and "other_folder_file env cfg root directory rel role pd filename (s, pr) = Inr (s', pr')"
  obtains a fid s1 where
      "addFile env (rel @ [filename]) (os_path_join directory filename) a s = (fid, s1)"
      "append_physical pd (fptr fid)
                   (s1\<lparr>mets_structmap_schema_div :=
                         append_kid (mets_structmap_schema_div s1) (fptr fid)\<rparr>) = Inr s'"
  using assms
  by (auto simp: other_folder_file_def Let_def split: sum.splits prod.splits)

lemma other_folder_file_content:
  assumes "directory \<noteq> root" "lower filename \<noteq> ''mets.xml''"
    and "\<not> (filename \<noteq> [] \<and> endswith directory ''schemas'')" "filename \<noteq> []"
    and "lookup_filegroup s role = Inr a"
    and "other_folder_file env cfg root directory rel role pd filename (s, pr) = Inr (s', pr')"
  obtains fid s1 where
      "addFile env (rel @ [filename]) (os_path_join directory filename) a s = (fid, s1)"
      "append_physical pd (fptr fid)
                   (s1\<lparr>mets_structmap_content_div :=
                         append_kid (mets_structmap_content_div s1) (fptr fid)\<rparr>) = Inr s'"
  using assms
  by (auto simp: other_folder_file_def Let_def split: sum.splits prod.splits)

lemma other_folder_file_keyerror:
  assumes nr: "directory \<noteq> root" and nm: "lower filename \<noteq> ''mets.xml''"
    and sc: "\<not> (filename \<noteq> [] \<and> endswith directory ''schemas'')" and ne: "filename \<noteq> []"
    and lk: "lookup_filegroup s role = Inl e"
    and run: "other_folder_file env cfg root directory rel role pd filename (s, pr) = Inr (s', pr')"
  shows "s' = logger_msg (''Error looking up '' @ quoted role @ '' element for file '' @ quoted filename) s
         \<and> pr' = pr"
proof -
  from lk have e: "lookup_filegroup s role = Inl (KeyError role)"
    by (auto simp: lookup_filegroup_def split: option.splits)
  from run nr nm sc ne show ?thesis
    by (simp add: other_folder_file_def Let_def e)
qed

lemma other_folder_file_inv:
  assumes inv: "gen_inv env s0 n s"
    and pdv: "\<forall>i. pd = Some i \<longrightarrow> i < n"
    and run: "other_folder_file env cfg root directory rel role pd filename (s, pr) = Inr (s', pr')"
  shows "gen_inv env s0 n s'"
proof (cases "directory = root")
  case True
  with run inv show ?thesis by (simp add: other_folder_file_def)
next
  case nr: False
  show ?thesis
  proof (cases "lower filename = ''mets.xml''")
    case True
    from other_folder_file_mets [OF nr True run] obtain pid sA mp s2 a fid s3 where
      f: "fresh_id env s = (pid, sA)"
      and a1: "append_physical pd mp sA = Inr s2"
      and add: "addFile env (rel @ [filename]) (os_path_join directory filename) a s2 = (fid, s3)"
      and a2: "append_physical pd (fptr fid) s3 = Inr s'"
      by blast
    have i2: "gen_inv env s0 n s2"
      using fresh_id_inv [OF inv f] a1 by (rule gen_inv_append_physical)
    show ?thesis
      by (rule register_file [OF i2 pdv add refl refl refl _ a2])
  next
    case nm: False
    show ?thesis
    proof (cases "filename \<noteq> [] \<and> endswith directory ''schemas''")
      case True
      from other_folder_file_schema [OF nr nm True run] obtain a fid s1 where
        add: "addFile env (rel @ [filename]) (os_path_join directory filename) a s = (fid, s1)"
        and a2: "append_physical pd (fptr fid)
                   (s1\<lparr>mets_structmap_schema_div :=
                         append_kid (mets_structmap_schema_div s1) (fptr fid)\<rparr>) = Inr s'"
        by blast
      show ?thesis
      proof (rule register_file [OF inv pdv add _ _ _ _ a2])
        show "skeleton_kept s0 s1 \<Longrightarrow>
              skeleton_kept s0 (s1\<lparr>mets_structmap_schema_div :=
                         append_kid (mets_structmap_schema_div s1) (fptr fid)\<rparr>)"
          by (simp add: skeleton_kept_def)
      qed simp_all
    next
      case ns: False
      show ?thesis
      proof (cases "filename \<noteq> []")
        case False
        with nr nm ns run inv show ?thesis by (simp add: other_folder_file_def Let_def)
      next
        case ne: True
        show ?thesis
        proof (cases "lookup_filegroup s role")
          case (Inl e)
          from other_folder_file_keyerror [OF nr nm ns ne Inl run] inv show ?thesis
            by (simp add: gen_inv_logger_msg)
        next
          case (Inr a)
          from other_folder_file_content [OF nr nm ns ne Inr run] obtain fid s1 where
            add: "addFile env (rel @ [filename]) (os_path_join directory filename) a s = (fid, s1)"
            and a2: "append_physical pd (fptr fid)
                   (s1\<lparr>mets_structmap_content_div :=
                         append_kid (mets_structmap_content_div s1) (fptr fid)\<rparr>) = Inr s'"
            by blast
          show ?thesis
          proof (rule register_file [OF inv pdv add _ _ _ _ a2])
            show "skeleton_kept s0 s1 \<Longrightarrow>
              skeleton_kept s0 (s1\<lparr>mets_structmap_content_div :=
                         append_kid (mets_structmap_content_div s1) (fptr fid)\<rparr>)"
              by (simp add: skeleton_kept_def)
          qed simp_all
        qed
      qed
    qed
  qed
qed

lemma new_division_inv:
  assumes inv: "gen_inv env s0 n s" and f: "fresh_id env s = (did, sA)"
  shows "gen_inv env s0 (Suc n) (sA\<lparr>package_div := append_kid (package_div sA) d\<rparr>)"
proof -
  let ?s1 = "sA\<lparr>package_div := append_kid (package_div sA) d\<rparr>"
  from fresh_id_inv [OF inv f] have kept: "skeleton_kept s0 sA"
    and ok: "inj (uuid4 env) \<Longrightarrow> files_ok_except env {} sA"
    and len: "length (kids (package_div sA)) = n"
    by (simp_all add: gen_inv_def)
  have kept1: "skeleton_kept s0 ?s1" using kept by (simp add: skeleton_kept_def)
  have ok1: "files_ok_except env {} ?s1" if "inj (uuid4 env)"
    using ok [OF that]
  proof (rule files_ok_except_step)
    show "x \<in> {} \<or> pointed ?s1 x" if "x \<in> {} \<or> pointed sA x" for x
      using that by (auto simp: pointed_def)
  qed simp_all
  show ?thesis using kept1 ok1 len by (simp add: gen_inv_def)
qed

lemma process_directory_inv:
  assumes inv: "gen_inv env s0 n s"
    and run: "process_directory env cfg root directory rel entries s = Inr (s', pr)"
  shows "\<exists>n'. gen_inv env s0 n' s'"
proof (cases "rel_of rel = ''representations''")
  case True
  with run inv show ?thesis by (auto simp: process_directory_def Let_def)
next
  case nrep: False
  define start where "start =
     (if rel_of rel \<noteq> ''.'' then
        (let (did, t) = fresh_id env s
         in (Some (length (kids (package_div t))),
             t\<lparr>package_div := append_kid (package_div t)
                   (M ''div'' [(''LABEL'', rel_of rel), (''ID'', did)])\<rparr>))
      else (None, s))"
  obtain pd s1 where st: "start = (pd, s1)" by (cases start) auto
  have "\<exists>n1. gen_inv env s0 n1 s1 \<and> (\<forall>i. pd = Some i \<longrightarrow> i < n1)"
  proof (cases "rel_of rel \<noteq> ''.''")
    case True
    obtain did t where f: "fresh_id env s = (did, t)" by (cases "fresh_id env s") auto
    from fresh_id_inv [OF inv f] have len: "length (kids (package_div t)) = n"
      by (simp add: gen_inv_def)
    from st True f have pd: "pd = Some n"
      and s1: "s1 = t\<lparr>package_div := append_kid (package_div t)
                   (M ''div'' [(''LABEL'', rel_of rel), (''ID'', did)])\<rparr>"
      by (simp_all add: start_def len)
    from new_division_inv [OF inv f] s1 pd show ?thesis
      by (intro exI [of _ "Suc n"]) simp
  next
    case False
    with st inv show ?thesis by (intro exI [of _ n]) (simp add: start_def)
  qed
  then obtain n1 where i1: "gen_inv env s0 n1 s1" and pdv: "\<forall>i. pd = Some i \<longrightarrow> i < n1"
    by blast
  define fp where "fp = (if endswith directory ''/metadata'' then ([], True)
                   else (file_names entries, False))"
  obtain filenames pruned where fp': "fp = (filenames, pruned)" by (cases fp) auto
  from run nrep st fp' have run':
    "(if directory = os_path_join root ''metadata'' then
        (case for_each (conduit_file env directory rel pd) filenames s1 of
           Inl e \<Rightarrow> Inl e
         | Inr s2 \<Rightarrow>
             (case for_each (metadata_entry env root rel pd) entries s2 of
                Inl e \<Rightarrow> Inl e
              | Inr s3 \<Rightarrow> Inr (s3, True)))
      else for_each (other_folder_file env cfg root directory rel
                (get_folder_with_USE (PyStr directory)) pd) filenames (s1, pruned)) = Inr (s', pr)"
    by (simp add: process_directory_def Let_def start_def [symmetric] fp_def [symmetric])
  show ?thesis
  proof (cases "directory = os_path_join root ''metadata''")
    case True
    with run' obtain s2 where
      c: "for_each (conduit_file env directory rel pd) filenames s1 = Inr s2"
      and m: "for_each (metadata_entry env root rel pd) entries s2 = Inr s'"
      by (auto split: sum.splits)
    have i2: "gen_inv env s0 n1 s2"
      using i1 c by (rule for_each_inv [where I = "gen_inv env s0 n1", rotated])
        (rule conduit_file_inv)
    have "gen_inv env s0 n1 s'"
      using i2 m by (rule for_each_inv [where I = "gen_inv env s0 n1", rotated])
        (rule metadata_entry_inv)
    then show ?thesis by blast
  next
    case False
    with run' have
      loop: "for_each (other_folder_file env cfg root directory rel
                (get_folder_with_USE (PyStr directory)) pd) filenames (s1, pruned) = Inr (s', pr)"
      by simp
    have step: "gen_inv env s0 n1 (fst y)"
      if "gen_inv env s0 n1 (fst x)"
         "other_folder_file env cfg root directory rel
            (get_folder_with_USE (PyStr directory)) pd filename x = Inr y" for filename x y
      using other_folder_file_inv [OF _ pdv, where s = "fst x" and pr = "snd x"
          and s' = "fst y" and pr' = "snd y"] that by simp
    have "gen_inv env s0 n1 (fst (s', pr))"
      using _ loop
    proof (rule for_each_inv [where I = "\<lambda>x. gen_inv env s0 n1 (fst x)", rotated])
      show "gen_inv env s0 n1 (fst (s1, pruned))" using i1 by simp
    qed (rule step)
    then show ?thesis by auto
  qed
qed

lemma walk_package_inv:
  assumes inv: "gen_inv env s0 n s"
    and run: "walk_package env cfg root tree s = Inr s'"
  shows "\<exists>n'. gen_inv env s0 n' s'"
proof -
  have step: "\<exists>n. gen_inv env s0 n t'"
    if "\<exists>n. gen_inv env s0 n t" "process_directory env cfg root directory rel entries t = Inr (t', pr)"
    for directory rel entries t t' pr
    using that process_directory_inv by blast
  from run obtain s1 pruned where
    pd: "process_directory env cfg root root [] tree s = Inr (s1, pruned)"
    and rest: "(if pruned then Inr s1 else walk_below env cfg root root [] tree s1) = Inr s'"
    by (auto simp: walk_package_def split: sum.splits prod.splits)
  have i1: "\<exists>n. gen_inv env s0 n s1" using step [OF _ pd] inv by blast
  show ?thesis
  proof (cases pruned)
    case True
    with rest i1 show ?thesis by simp
  next
    case False
    with rest have "walk_below env cfg root root [] tree s1 = Inr s'" by simp
    with i1 show ?thesis
      by (rule walk_below_inv [where I = "\<lambda>t. \<exists>n. gen_inv env s0 n t", rotated]) (rule step)
  qed
qed

section \<open>Properties of the generated descriptor\<close>

lemma get_attr_fileGrp_USE:
  "get_attr (M ''fileGrp'' [(''ID'', i), (''USE'', u)]) ''USE'' = Some u"
  by (simp add: get_attr_def M_def)

lemma subdir_filegroups_store:
  "subdir_filegroups env dirs (n, store, groups, sec) = (n', store', groups', sec') \<Longrightarrow>
   \<exists>new. store' = store @ new \<and> (\<forall>g \<in> set new. kids g = [])"
proof (induction dirs arbitrary: n store groups sec)
  case Nil
  then show ?case by simp
next
  case (Cons d dirs)
  show ?case
  proof (cases "d \<in> set folders_with_USE")
    case True
    with Cons.prems have "subdir_filegroups env dirs
          (Suc n, store @ [M ''fileGrp'' [(''ID'', ''ID'' @ uuid4 env n), (''USE'', d)]],
           groups(d \<mapsto> length store), sec @ [length store]) = (n', store', groups', sec')"
      by simp
    from Cons.IH [OF this] obtain new where
      "store' = (store @ [M ''fileGrp'' [(''ID'', ''ID'' @ uuid4 env n), (''USE'', d)]]) @ new"
      "\<forall>g \<in> set new. kids g = []" by blast
    then show ?thesis
      by (intro exI [of _ "M ''fileGrp'' [(''ID'', ''ID'' @ uuid4 env n), (''USE'', d)] # new"])
         (simp add: M_def)
  next
    case False
    with Cons show ?thesis by simp
  qed
qed

lemma subdir_filegroups_sec:
  "subdir_filegroups env dirs (n, store, groups, sec) = (n', store', groups', sec') \<Longrightarrow>
   \<forall>a \<in> set sec. a < length store \<Longrightarrow>
   (\<forall>a \<in> set sec'. a < length store' \<and> (a \<in> set sec \<or> length store \<le> a))
   \<and> map (\<lambda>a. get_attr (store' ! a) ''USE'') sec'
       = map (\<lambda>a. get_attr (store ! a) ''USE'') sec
         @ map Some (filter (\<lambda>d. d \<in> set folders_with_USE) dirs)"
proof (induction dirs arbitrary: n store groups sec)
  case Nil
  then show ?case by simp
next
  case (Cons d dirs)
  show ?case
  proof (cases "d \<in> set folders_with_USE")
    case True
    let ?g = "M ''fileGrp'' [(''ID'', ''ID'' @ uuid4 env n), (''USE'', d)]"
    from True Cons.prems(1) have run: "subdir_filegroups env dirs
          (Suc n, store @ [?g], groups(d \<mapsto> length store), sec @ [length store])
          = (n', store', groups', sec')"
      by simp
    have bound: "\<forall>a \<in> set (sec @ [length store]). a < length (store @ [?g])"
      using Cons.prems(2) by auto
    from Cons.IH [OF run bound] have
      ih1: "\<forall>a \<in> set sec'. a < length store'
              \<and> (a \<in> set (sec @ [length store]) \<or> length (store @ [?g]) \<le> a)"
      and ih2: "map (\<lambda>a. get_attr (store' ! a) ''USE'') sec'
        = map (\<lambda>a. get_attr ((store @ [?g]) ! a) ''USE'') (sec @ [length store])
          @ map Some (filter (\<lambda>d. d \<in> set folders_with_USE) dirs)"
      by blast+
    have old: "map (\<lambda>a. get_attr ((store @ [?g]) ! a) ''USE'') sec
               = map (\<lambda>a. get_attr (store ! a) ''USE'') sec"
      using Cons.prems(2) by (simp add: nth_append)
    have "map (\<lambda>a. get_attr (store' ! a) ''USE'') sec'
       = map (\<lambda>a. get_attr (store ! a) ''USE'') sec
         @ map Some (filter (\<lambda>d. d \<in> set folders_with_USE) (d # dirs))"
      using ih2 old True by (simp add: get_attr_fileGrp_USE)
    moreover have "\<forall>a \<in> set sec'. a < length store' \<and> (a \<in> set sec \<or> length store \<le> a)"
      using ih1 by auto
    ultimately show ?thesis by blast
  next
    case False
    with Cons show ?thesis by simp
  qed
qed

lemma subdir_filegroups_groups:
  "subdir_filegroups env dirs (n, store, groups, sec) = (n', store', groups', sec') \<Longrightarrow>
   r \<notin> set dirs \<or> r \<notin> set folders_with_USE \<Longrightarrow> groups' r = groups r"
proof (induction dirs arbitrary: n store groups sec)
  case Nil
  then show ?case by simp
next
  case (Cons d dirs)
  show ?case
  proof (cases "d \<in> set folders_with_USE")
    case True
    with Cons.prems(1) have run: "subdir_filegroups env dirs
          (Suc n, store @ [M ''fileGrp'' [(''ID'', ''ID'' @ uuid4 env n), (''USE'', d)]],
           groups(d \<mapsto> length store), sec @ [length store])
          = (n', store', groups', sec')"
      by simp
    from Cons.prems(2) True have "r \<noteq> d" "r \<notin> set dirs \<or> r \<notin> set folders_with_USE" by auto
    with Cons.IH [OF run] show ?thesis by simp
  next
    case False
    with Cons.prems(1) have run: "subdir_filegroups env dirs (n, store, groups, sec)
          = (n', store', groups', sec')"
      by simp
    from Cons.prems(2) have "r \<notin> set dirs \<or> r \<notin> set folders_with_USE" by auto
    from Cons.IH [OF run this] show ?thesis .
  qed
qed

lemma mets_skeleton_facts:
  fixes env rp tree cfg schemafolder parent
  defines "s0 \<equiv> mets_skeleton env rp tree cfg schemafolder parent"
    and "r \<equiv> get_folder_with_USE (PyStr rp)"
  shows "root_attrs s0 =
            [(''OBJID'', packageid cfg),
             (''LABEL'', ''METS file describing the '' @ packagetype cfg @ '' matching the OBJID.''),
             (''PROFILE'', PROFILE_XML),
             (''TYPE'', ''Databases''),
             (q CSIP_NS ''CONTENTINFORMATIONTYPE'', ''SIARD2''),
             (q XSI_NS ''schemaLocation'', schemaLocation_value env rp schemafolder)]"
    and "tag (mets_hdr s0) = q METS_NS ''metsHdr''"
    and "dmdSecs s0 = []"
    and "tag (mets_amdSec s0) = q METS_NS ''amdSec''"
    and "tag (mets_fileSec s0) = q METS_NS ''fileSec''"
    and "tag (mets_earkstructmap s0) = q METS_NS ''structMap''"
    and "get_attr (mets_earkstructmap s0) ''TYPE'' = Some ''PHYSICAL''"
    and "tag (mets_structmap s0) = q METS_NS ''structMap''"
    and "get_attr (mets_structmap s0) ''TYPE'' = Some ''logical''"
    and "\<forall>x. mets_structmap_relation s0 = Some x \<longrightarrow>
           tag x = q METS_NS ''structMap'' \<and> get_attr x ''TYPE'' = Some ''logical''"
    and "kids (package_div s0) = []"
    and "\<forall>g \<in> set (grp_store s0). kids g = []"
    and "grp_store s0 \<noteq> [] \<and> get_attr (grp_store s0 ! 0) ''USE'' = Some r"
    and "\<forall>a \<in> set (fileSec_kids s0). 0 < a \<and> a < length (grp_store s0)"
    and "map (\<lambda>a. get_attr (grp_store s0 ! a) ''USE'') (fileSec_kids s0)
           = map Some (filter (\<lambda>d. d \<in> set folders_with_USE) (dir_names tree))"
    and "r \<notin> set (dir_names tree) \<or> r \<notin> set folders_with_USE \<longrightarrow> mets_filegroups s0 r = Some 0"
    and "kids (mets_earkstructmap s0) = []"
proof -
  let ?dom = "M ''fileGrp'' [(''ID'', ''ID'' @ uuid4 env 2), (''USE'', get_folder_with_USE (PyStr rp))]"
  obtain n store groups sec where
    sf: "subdir_filegroups env (dir_names tree)
           (3, [?dom], [get_folder_with_USE (PyStr rp) \<mapsto> 0], []) = (n, store, groups, sec)"
    by (cases "subdir_filegroups env (dir_names tree)
           (3, [?dom], [get_folder_with_USE (PyStr rp) \<mapsto> 0], [])") auto
  have f_store: "grp_store s0 = store" and f_sec: "fileSec_kids s0 = sec"
    and f_groups: "mets_filegroups s0 = groups"
    unfolding s0_def mets_skeleton_def Let_def sf by simp_all
  show "root_attrs s0 =
            [(''OBJID'', packageid cfg),
             (''LABEL'', ''METS file describing the '' @ packagetype cfg @ '' matching the OBJID.''),
             (''PROFILE'', PROFILE_XML),
             (''TYPE'', ''Databases''),
             (q CSIP_NS ''CONTENTINFORMATIONTYPE'', ''SIARD2''),
             (q XSI_NS ''schemaLocation'', schemaLocation_value env rp schemafolder)]"
    unfolding s0_def mets_skeleton_def Let_def sf by simp
  show "tag (mets_hdr s0) = q METS_NS ''metsHdr''"
    unfolding s0_def mets_skeleton_def Let_def sf by simp
  show "dmdSecs s0 = []"
    unfolding s0_def mets_skeleton_def Let_def sf by simp
  show "tag (mets_amdSec s0) = q METS_NS ''amdSec''"
    unfolding s0_def mets_skeleton_def Let_def sf by (simp add: M_def)
  show "tag (mets_fileSec s0) = q METS_NS ''fileSec''"
    unfolding s0_def mets_skeleton_def Let_def sf by (simp add: M_def)
  show "tag (mets_earkstructmap s0) = q METS_NS ''structMap''"
    unfolding s0_def mets_skeleton_def Let_def sf by (simp add: M_def)
  show "get_attr (mets_earkstructmap s0) ''TYPE'' = Some ''PHYSICAL''"
    unfolding s0_def mets_skeleton_def Let_def sf by (simp add: M_def get_attr_def)
  show "tag (mets_structmap s0) = q METS_NS ''structMap''"
    unfolding s0_def mets_skeleton_def Let_def sf by (simp add: M_def)
  show "get_attr (mets_structmap s0) ''TYPE'' = Some ''logical''"
    unfolding s0_def mets_skeleton_def Let_def sf by (simp add: M_def get_attr_def)
  show "\<forall>x. mets_structmap_relation s0 = Some x \<longrightarrow>
           tag x = q METS_NS ''structMap'' \<and> get_attr x ''TYPE'' = Some ''logical''"
    unfolding s0_def mets_skeleton_def Let_def sf by (simp add: get_attr_def)
  show "kids (package_div s0) = []"
    unfolding s0_def mets_skeleton_def Let_def sf by (simp add: M_def)
  from subdir_filegroups_store [OF sf] obtain new where
    new: "store = [?dom] @ new" "\<forall>g \<in> set new. kids g = []" by blast
  show "\<forall>g \<in> set (grp_store s0). kids g = []"
    using new by (auto simp: f_store M_def)
  show "grp_store s0 \<noteq> [] \<and> get_attr (grp_store s0 ! 0) ''USE'' = Some r"
    using new by (simp add: f_store r_def get_attr_fileGrp_USE)
  have secs: "(\<forall>a \<in> set sec. a < length store \<and> (a \<in> set [] \<or> length [?dom] \<le> a))
     \<and> map (\<lambda>a. get_attr (store ! a) ''USE'') sec
       = map (\<lambda>a. get_attr ([?dom] ! a) ''USE'') []
         @ map Some (filter (\<lambda>d. d \<in> set folders_with_USE) (dir_names tree))"
    by (rule subdir_filegroups_sec [OF sf]) simp
  show "\<forall>a \<in> set (fileSec_kids s0). 0 < a \<and> a < length (grp_store s0)"
    using secs by (auto simp: f_store f_sec)
  show "map (\<lambda>a. get_attr (grp_store s0 ! a) ''USE'') (fileSec_kids s0)
           = map Some (filter (\<lambda>d. d \<in> set folders_with_USE) (dir_names tree))"
    using secs by (simp add: f_store f_sec)
  show "r \<notin> set (dir_names tree) \<or> r \<notin> set folders_with_USE \<longrightarrow> mets_filegroups s0 r = Some 0"
    using subdir_filegroups_groups [OF sf, of r] by (auto simp: f_groups r_def)
  show "kids (mets_earkstructmap s0) = []"
    unfolding s0_def mets_skeleton_def Let_def sf by (simp add: M_def)
qed

lemma createMets_success:
  assumes "createMets env tree g md out w = (Inr s, g', w')"
  obtains pid ptype schemafolder parent where
    "md ''packageid'' = Some pid" "md ''type'' = Some ptype"
    "md ''schemas'' = Some schemafolder" "md ''parent'' = Some parent"
    "walk_package env \<lparr>packageid = pid, packagetype = ptype\<rparr> (root_path g) tree
       (mets_skeleton env (root_path g) tree \<lparr>packageid = pid, packagetype = ptype\<rparr> schemafolder parent)
     = Inr s"
    "files w' (descriptor_path (root_path g) out) = Some (XmlText (document s))"
    "g' = g\<lparr>mets_data := Some md\<rparr>"
proof -
  from assms obtain pid where p1: "md ''packageid'' = Some pid"
    by (cases "md ''packageid''") (auto simp: createMets_def dict_item_def Let_def)
  from assms p1 obtain ptype where p2: "md ''type'' = Some ptype"
    by (cases "md ''type''") (auto simp: createMets_def dict_item_def Let_def)
  from assms p1 p2 obtain schemafolder where p3: "md ''schemas'' = Some schemafolder"
    by (cases "md ''schemas''") (auto simp: createMets_def dict_item_def Let_def)
  from assms p1 p2 p3 obtain parent where p4: "md ''parent'' = Some parent"
    by (cases "md ''parent''") (auto simp: createMets_def dict_item_def Let_def)
  let ?cfg = "\<lparr>packageid = pid, packagetype = ptype\<rparr>"
  let ?walk = "walk_package env ?cfg (root_path g) tree
       (mets_skeleton env (root_path g) tree ?cfg schemafolder parent)"
  from assms p1 p2 p3 p4 obtain t where w: "?walk = Inr t"
    by (cases ?walk) (auto simp: createMets_def dict_item_def Let_def)
  from assms p1 p2 p3 p4 w have "t = s"
    "files w' (descriptor_path (root_path g) out) = Some (XmlText (document s))"
    "g' = g\<lparr>mets_data := Some md\<rparr>"
    by (auto simp: createMets_def dict_item_def Let_def etree_tostring_def decode_utf8_def
      write_text_file_def)
  with p1 p2 p3 p4 w show ?thesis using that by blast
qed

lemma mets_skeleton_inv:
  "gen_inv env (mets_skeleton env rp tree cfg schemafolder parent) 0
     (mets_skeleton env rp tree cfg schemafolder parent)"
proof -
  let ?s0 = "mets_skeleton env rp tree cfg schemafolder parent"
  have "skeleton_kept ?s0 ?s0"
    by (simp add: skeleton_kept_def mets_skeleton_facts(3) [where tree = tree])
  moreover have "files_ok_except env {} ?s0"
    using mets_skeleton_facts(12) [where env = env and rp = rp and tree = tree and cfg = cfg
        and schemafolder = schemafolder and parent = parent]
    by (auto simp: files_ok_except_def)
  moreover have "length (kids (package_div ?s0)) = 0"
    by (simp add: mets_skeleton_facts(11) [where tree = tree])
  ultimately show ?thesis by (simp add: gen_inv_def)
qed

lemma q_METS_neq [simp]:
  "q METS_NS ''metsHdr'' \<noteq> q METS_NS ''fileSec''" "q METS_NS ''dmdSec'' \<noteq> q METS_NS ''fileSec''"
  "q METS_NS ''amdSec'' \<noteq> q METS_NS ''fileSec''" "q METS_NS ''structMap'' \<noteq> q METS_NS ''fileSec''"
  "q METS_NS ''metsHdr'' \<noteq> q METS_NS ''structMap''" "q METS_NS ''dmdSec'' \<noteq> q METS_NS ''structMap''"
  "q METS_NS ''amdSec'' \<noteq> q METS_NS ''structMap''" "q METS_NS ''fileSec'' \<noteq> q METS_NS ''structMap''"
  by (simp_all add: q_def)

lemma filter_tag_none:
  "list_all (\<lambda>d. tag d = t) ds \<Longrightarrow> (\<And>e. tag e = t \<Longrightarrow> \<not> P e) \<Longrightarrow> filter P ds = []"
  by (induction ds) auto

lemma get_attr_append_kid [simp]: "get_attr (append_kid e k) n = get_attr e n"
  by (simp add: get_attr_def)

lemma document_observed:
  assumes kept: "skeleton_kept (mets_skeleton env rp tree cfg schemafolder parent) s"
  shows "fileSec_groups (document s) = map (\<lambda>a. grp_store s ! a) (fileSec_kids s)"
    and "physical_divisions (document s) = kids (package_div s)"
    and "tag (document s) = q METS_NS ''mets''"
    and "attrs (document s) = root_attrs (mets_skeleton env rp tree cfg schemafolder parent)"
proof -
  let ?s0 = "mets_skeleton env rp tree cfg schemafolder parent"
  note sk = mets_skeleton_facts [where env = env and rp = rp and tree = tree and cfg = cfg
      and schemafolder = schemafolder and parent = parent]
  from kept have hdr: "tag (mets_hdr s) = q METS_NS ''metsHdr''"
    and amd: "tag (mets_amdSec s) = q METS_NS ''amdSec''"
    and fs: "tag (mets_fileSec s) = q METS_NS ''fileSec''"
    and eark: "tag (mets_earkstructmap s) = q METS_NS ''structMap''"
      "get_attr (mets_earkstructmap s) ''TYPE'' = Some ''PHYSICAL''"
    and sm: "tag (mets_structmap s) = q METS_NS ''structMap''"
      "get_attr (mets_structmap s) ''TYPE'' = Some ''logical''"
    and dmd: "list_all (\<lambda>d. tag d = q METS_NS ''dmdSec'') (dmdSecs s)"
    and rel: "mets_structmap_relation s = mets_structmap_relation ?s0"
    and ek: "kids (mets_earkstructmap s) = []"
    using sk(2,4,5,6,7,8,9,17) by (simp_all add: skeleton_kept_def)
  have relx: "tag x = q METS_NS ''structMap'' \<and> get_attr x ''TYPE'' = Some ''logical''"
    if "mets_structmap_relation s = Some x" for x
    using that rel sk(10) by simp
  have d1: "filter (\<lambda>e. tag e = q METS_NS ''fileSec'') (dmdSecs s) = []"
    using dmd by (rule filter_tag_none) simp
  have d2: "filter (\<lambda>e. tag e = q METS_NS ''structMap'' \<and> get_attr e ''TYPE'' = Some ''PHYSICAL'')
              (dmdSecs s) = []"
    using dmd by (rule filter_tag_none) simp
  show "fileSec_groups (document s) = map (\<lambda>a. grp_store s ! a) (fileSec_kids s)"
    using relx
    by (cases "mets_structmap_relation s")
       (simp_all add: fileSec_groups_def document_def hdr amd fs eark sm d1)
  show "physical_divisions (document s) = kids (package_div s)"
    using relx
    by (cases "mets_structmap_relation s")
       (simp_all add: physical_divisions_def document_def hdr amd fs eark sm d2 ek)
  show "tag (document s) = q METS_NS ''mets''"
    by (simp add: document_def)
  show "attrs (document s) = root_attrs ?s0"
    using kept by (simp add: document_def skeleton_kept_def)
qed

lemma get_attr_same_attrs:
  "map attrs xs = map attrs ys \<Longrightarrow> a < length ys \<Longrightarrow> get_attr (xs ! a) n = get_attr (ys ! a) n"
proof -
  assume m: "map attrs xs = map attrs ys" and a: "a < length ys"
  have l: "length xs = length ys" by (rule map_eq_imp_length_eq [OF m])
  have "attrs (xs ! a) = map attrs xs ! a" using a l by simp
  also have "\<dots> = map attrs ys ! a" by (simp only: m)
  also have "\<dots> = attrs (ys ! a)" using a by simp
  finally have "attrs (xs ! a) = attrs (ys ! a)" .
  then show ?thesis by (simp add: get_attr_def)
qed

lemma files_ok_except_id:
  assumes "files_ok_except env {} s" "grp \<in> set (grp_store s)" "f \<in> set (kids grp)"
  obtains k where "get_attr f ''ID'' = Some (''ID'' @ uuid4 env k)" "pointed s (''ID'' @ uuid4 env k)"
  using assms unfolding files_ok_except_def by blast

lemma files_ok_except_disjoint:
  assumes "files_ok_except env X s" "a < length (grp_store s)" "b < length (grp_store s)" "a \<noteq> b"
    "f \<in> set (kids (grp_store s ! a))" "f' \<in> set (kids (grp_store s ! b))"
  shows "get_attr f ''ID'' \<noteq> get_attr f' ''ID''"
  using assms unfolding files_ok_except_def by blast

lemma fptr_observed:
  "tag (fptr fid) = q METS_NS ''fptr'' \<and> get_attr (fptr fid) ''FILEID'' = Some fid"
  by (simp add: fptr_def M_def get_attr_def)

text \<open>
  C10. After a successful generation run, with a uuid source that never repeats: the
  descriptor written is the document of the final state; the file groups of its file
  section are those of the top-level subdirectories that are role tokens, in their
  order, so that a file group of the root's own role token is in the file section only
  if that token names a top-level subdirectory; the group created first for the root's
  role token (address \<open>0\<close>) is never a child of the file section, and it stays the
  dictionary's group for that token when the token names no top-level subdirectory;
  every file entry registered into it has an identifier that no file entry of the
  serialised file section has, while a division of the physical structMap holds a
  pointer node to it: an \<open>fptr\<close> element whose \<open>FILEID\<close> is that identifier.
\<close>

theorem dominant_filegroup_outside_fileSec:
  assumes run: "createMets env tree g md out w = (Inr s, g', w')"
    and uniq: "inj (uuid4 env)"
  shows "files w' (descriptor_path (root_path g) out) = Some (XmlText (document s))
     \<and> map (\<lambda>grp. get_attr grp ''USE'') (fileSec_groups (document s))
         = map Some (filter (\<lambda>d. d \<in> set folders_with_USE) (dir_names tree))
     \<and> ((\<exists>grp \<in> set (fileSec_groups (document s)).
            get_attr grp ''USE'' = Some (get_folder_with_USE (PyStr (root_path g))))
          \<longrightarrow> get_folder_with_USE (PyStr (root_path g)) \<in> set (dir_names tree))
     \<and> 0 \<notin> set (fileSec_kids s)
     \<and> get_attr (grp_store s ! 0) ''USE'' = Some (get_folder_with_USE (PyStr (root_path g)))
     \<and> (get_folder_with_USE (PyStr (root_path g)) \<notin> set (dir_names tree)
          \<longrightarrow> mets_filegroups s (get_folder_with_USE (PyStr (root_path g))) = Some 0)
     \<and> (\<forall>f \<in> set (kids (grp_store s ! 0)). \<exists>fid. get_attr f ''ID'' = Some fid
          \<and> (\<forall>grp \<in> set (fileSec_groups (document s)). \<forall>f' \<in> set (kids grp).
                get_attr f' ''ID'' \<noteq> Some fid)
          \<and> (\<exists>d \<in> set (physical_divisions (document s)). \<exists>p \<in> set (kids d).
                tag p = q METS_NS ''fptr'' \<and> get_attr p ''FILEID'' = Some fid))"
proof -
  obtain pid ptype schemafolder parent where
    "md ''packageid'' = Some pid" "md ''type'' = Some ptype"
    "md ''schemas'' = Some schemafolder" "md ''parent'' = Some parent"
    and walk: "walk_package env \<lparr>packageid = pid, packagetype = ptype\<rparr> (root_path g) tree
       (mets_skeleton env (root_path g) tree \<lparr>packageid = pid, packagetype = ptype\<rparr> schemafolder parent)
     = Inr s"
    and written: "files w' (descriptor_path (root_path g) out) = Some (XmlText (document s))"
    and "g' = g\<lparr>mets_data := Some md\<rparr>"
    by (rule createMets_success [OF run])
  let ?cfg = "\<lparr>packageid = pid, packagetype = ptype\<rparr>"
  let ?s0 = "mets_skeleton env (root_path g) tree ?cfg schemafolder parent"
  let ?r = "get_folder_with_USE (PyStr (root_path g))"
  note sk = mets_skeleton_facts [where env = env and rp = "root_path g" and tree = tree
      and cfg = ?cfg and schemafolder = schemafolder and parent = parent]
  have "\<exists>n. gen_inv env ?s0 n s"
    by (rule walk_package_inv [OF mets_skeleton_inv walk])
  then obtain n where inv: "gen_inv env ?s0 n s" ..
  then have kept: "skeleton_kept ?s0 s" and ok: "files_ok_except env {} s"
    using uniq by (simp_all add: gen_inv_def)
  note doc = document_observed [OF kept]
  from kept have sec: "fileSec_kids s = fileSec_kids ?s0"
    and grp: "mets_filegroups s = mets_filegroups ?s0"
    and at: "map attrs (grp_store s) = map attrs (grp_store ?s0)"
    by (simp_all add: skeleton_kept_def)
  have len: "length (grp_store s) = length (grp_store ?s0)"
    by (rule map_eq_imp_length_eq [OF at])
  have secb: "\<forall>a \<in> set (fileSec_kids s). 0 < a \<and> a < length (grp_store s)"
    using sk(14) by (simp add: sec len)
  have use: "map (\<lambda>grp. get_attr grp ''USE'') (fileSec_groups (document s))
         = map Some (filter (\<lambda>d. d \<in> set folders_with_USE) (dir_names tree))"
  proof -
    have "map (\<lambda>grp. get_attr grp ''USE'') (fileSec_groups (document s))
          = map (\<lambda>a. get_attr (grp_store s ! a) ''USE'') (fileSec_kids ?s0)"
      by (simp add: doc(1) sec comp_def)
    also have "\<dots> = map (\<lambda>a. get_attr (grp_store ?s0 ! a) ''USE'') (fileSec_kids ?s0)"
      using sk(14) by (intro map_cong refl get_attr_same_attrs [OF at]) simp
    also have "\<dots> = map Some (filter (\<lambda>d. d \<in> set folders_with_USE) (dir_names tree))"
      by (rule sk(15))
    finally show ?thesis .
  qed
  have onlyif: "?r \<in> set (dir_names tree)"
    if "\<exists>grp \<in> set (fileSec_groups (document s)). get_attr grp ''USE'' = Some ?r"
  proof -
    from that have "Some ?r \<in> set (map (\<lambda>grp. get_attr grp ''USE'') (fileSec_groups (document s)))"
      by force
    then show ?thesis unfolding use by auto
  qed
  have zero: "0 \<notin> set (fileSec_kids s)" using secb by auto
  have ne: "grp_store s \<noteq> []" using sk(13) len by auto
  have dom_use: "get_attr (grp_store s ! 0) ''USE'' = Some ?r"
    using sk(13) get_attr_same_attrs [OF at, of 0 "''USE''"] by auto
  have dict: "mets_filegroups s ?r = Some 0" if "?r \<notin> set (dir_names tree)"
    using that sk(16) by (simp add: grp)
  have files: "\<exists>fid. get_attr f ''ID'' = Some fid
          \<and> (\<forall>grp \<in> set (fileSec_groups (document s)). \<forall>f' \<in> set (kids grp).
                get_attr f' ''ID'' \<noteq> Some fid)
          \<and> (\<exists>d \<in> set (physical_divisions (document s)). \<exists>p \<in> set (kids d).
                tag p = q METS_NS ''fptr'' \<and> get_attr p ''FILEID'' = Some fid)"
    if f: "f \<in> set (kids (grp_store s ! 0))" for f
  proof -
    have in0: "grp_store s ! 0 \<in> set (grp_store s)" using ne by simp
    from files_ok_except_id [OF ok in0 f] obtain k where
      k: "get_attr f ''ID'' = Some (''ID'' @ uuid4 env k)" "pointed s (''ID'' @ uuid4 env k)"
      by blast
    have absent: "get_attr f' ''ID'' \<noteq> Some (''ID'' @ uuid4 env k)"
      if "grp \<in> set (fileSec_groups (document s))" "f' \<in> set (kids grp)" for grp f'
    proof -
      from that(1) obtain a where a: "a \<in> set (fileSec_kids s)" "grp = grp_store s ! a"
        by (auto simp: doc(1))
      from secb a(1) have a0: "0 < a" and al: "a < length (grp_store s)" by auto
      have zl: "0 < length (grp_store s)" using ne by simp
      have fa: "f' \<in> set (kids (grp_store s ! a))" using that(2) a(2) by simp
      have "0 \<noteq> a" using a0 by simp
      from files_ok_except_disjoint [OF ok zl al this f fa]
      have "get_attr f ''ID'' \<noteq> get_attr f' ''ID''" .
      with k(1) show ?thesis by simp
    qed
    from k(2) have "\<exists>d \<in> set (physical_divisions (document s)). fptr (''ID'' @ uuid4 env k) \<in> set (kids d)"
      by (simp add: pointed_def doc(2))
    then obtain d where d: "d \<in> set (physical_divisions (document s))"
      "fptr (''ID'' @ uuid4 env k) \<in> set (kids d)" by blast
    show ?thesis
    proof (intro exI conjI ballI)
      show "get_attr f ''ID'' = Some (''ID'' @ uuid4 env k)" by (rule k(1))
      show "get_attr f' ''ID'' \<noteq> Some (''ID'' @ uuid4 env k)"
        if "grp \<in> set (fileSec_groups (document s))" "f' \<in> set (kids grp)" for grp f'
        using absent that by blast
      show "\<exists>d \<in> set (physical_divisions (document s)). \<exists>p \<in> set (kids d).
                tag p = q METS_NS ''fptr'' \<and> get_attr p ''FILEID'' = Some (''ID'' @ uuid4 env k)"
        using d fptr_observed [of "''ID'' @ uuid4 env k"] by blast
    qed
  qed
  show ?thesis
  proof (intro conjI)
    show "files w' (descriptor_path (root_path g) out) = Some (XmlText (document s))"
      by (rule written)
    show "map (\<lambda>grp. get_attr grp ''USE'') (fileSec_groups (document s))
         = map Some (filter (\<lambda>d. d \<in> set folders_with_USE) (dir_names tree))"
      by (rule use)
    show "(\<exists>grp \<in> set (fileSec_groups (document s)).
            get_attr grp ''USE'' = Some (get_folder_with_USE (PyStr (root_path g))))
          \<longrightarrow> get_folder_with_USE (PyStr (root_path g)) \<in> set (dir_names tree)"
      using onlyif by blast
    show "0 \<notin> set (fileSec_kids s)" by (rule zero)
    show "get_attr (grp_store s ! 0) ''USE'' = Some (get_folder_with_USE (PyStr (root_path g)))"
      by (rule dom_use)
    show "get_folder_with_USE (PyStr (root_path g)) \<notin> set (dir_names tree)
          \<longrightarrow> mets_filegroups s (get_folder_with_USE (PyStr (root_path g))) = Some 0"
      using dict by blast
    show "\<forall>f \<in> set (kids (grp_store s ! 0)). \<exists>fid. get_attr f ''ID'' = Some fid
          \<and> (\<forall>grp \<in> set (fileSec_groups (document s)). \<forall>f' \<in> set (kids grp).
                get_attr f' ''ID'' \<noteq> Some fid)
          \<and> (\<exists>d \<in> set (physical_divisions (document s)). \<exists>p \<in> set (kids d).
                tag p = q METS_NS ''fptr'' \<and> get_attr p ''FILEID'' = Some fid)"
      using files by blast
  qed
qed










lemma run_shape:
  "(case fst x of Inr s \<Rightarrow> True | Inl e \<Rightarrow> False) \<Longrightarrow>
   x = (Inr (projr (fst x)), fst (snd x), snd (snd x))"
  by (cases x; cases "fst x") auto

lemma example_env_inj: "inj (uuid4 example_env)"
  by (simp add: example_env_def inj_on_def)

lemma example_descriptor_path:
  "descriptor_path ''/pkg'' None = ''/pkg/METS.xml''"
  by (simp add: descriptor_path_def example_sibling_path)



theorem dominant_filegroup_outside_fileSec_witness:
  "inj (uuid4 example_env)
   \<and> other_role_run = (Inr other_role_state, fst (snd other_role_run), snd (snd other_role_run))
   \<and> files (snd (snd other_role_run)) ''/pkg/METS.xml'' = Some (XmlText (document other_role_state))
   \<and> map (\<lambda>grp. get_attr grp ''USE'') (fileSec_groups (document other_role_state)) = [Some ''data'']
   \<and> get_folder_with_USE (PyStr ''/pkg'') = ''other''
   \<and> ''other'' \<notin> set (dir_names other_role_tree)
   \<and> mets_filegroups other_role_state ''other'' = Some 0
   \<and> 0 \<notin> set (fileSec_kids other_role_state)
   \<and> length (kids (grp_store other_role_state ! 0)) = 1
   \<and> list_all (\<lambda>f. \<exists>fid. get_attr f ''ID'' = Some fid
          \<and> list_all (\<lambda>grp. list_all (\<lambda>f'. get_attr f' ''ID'' \<noteq> Some fid) (kids grp))
                (fileSec_groups (document other_role_state))
          \<and> list_ex (\<lambda>d. list_ex (\<lambda>p. tag p = q METS_NS ''fptr'' \<and> get_attr p ''FILEID'' = Some fid)
                             (kids d))
                (physical_divisions (document other_role_state)))
        (kids (grp_store other_role_state ! 0))"
proof -
  have ok: "(case fst other_role_run of Inr s \<Rightarrow> True | Inl e \<Rightarrow> False)"
    by code_simp
  have shape: "other_role_run = (Inr other_role_state, fst (snd other_role_run), snd (snd other_role_run))"
    unfolding other_role_state_def by (rule run_shape [OF ok])
  have run: "createMets example_env other_role_tree (MetsGenerator_init ''/pkg'') example_mets_data
       None empty_world
     = (Inr other_role_state, fst (snd other_role_run), snd (snd other_role_run))"
    using shape by (simp only: other_role_run_def)
  have rp: "root_path (MetsGenerator_init ''/pkg'') = ''/pkg''"
    by (simp add: MetsGenerator_init_def)
  have role: "get_folder_with_USE (PyStr ''/pkg'') = ''other''" by code_simp
  have dirs: "''other'' \<notin> set (dir_names other_role_tree)" by code_simp
  have uses: "map Some (filter (\<lambda>d. d \<in> set folders_with_USE) (dir_names other_role_tree))
                = [Some ''data'']" by code_simp
  have one: "length (kids (grp_store other_role_state ! 0)) = 1" by code_simp
  note t = dominant_filegroup_outside_fileSec [OF run example_env_inj,
      unfolded rp example_descriptor_path role uses]
  from t have c1: "files (snd (snd other_role_run)) ''/pkg/METS.xml''
                     = Some (XmlText (document other_role_state))" by blast
  from t have c2: "map (\<lambda>grp. get_attr grp ''USE'') (fileSec_groups (document other_role_state))
                     = [Some ''data'']" by blast
  from t dirs have c3: "mets_filegroups other_role_state ''other'' = Some 0" by blast
  from t have c4: "0 \<notin> set (fileSec_kids other_role_state)" by blast
  from t have c5: "\<forall>f \<in> set (kids (grp_store other_role_state ! 0)). \<exists>fid. get_attr f ''ID'' = Some fid
          \<and> (\<forall>grp \<in> set (fileSec_groups (document other_role_state)). \<forall>f' \<in> set (kids grp).
                get_attr f' ''ID'' \<noteq> Some fid)
          \<and> (\<exists>d \<in> set (physical_divisions (document other_role_state)). \<exists>p \<in> set (kids d).
                tag p = q METS_NS ''fptr'' \<and> get_attr p ''FILEID'' = Some fid)"
    by blast
  then have c6: "list_all (\<lambda>f. \<exists>fid. get_attr f ''ID'' = Some fid
          \<and> list_all (\<lambda>grp. list_all (\<lambda>f'. get_attr f' ''ID'' \<noteq> Some fid) (kids grp))
                (fileSec_groups (document other_role_state))
          \<and> list_ex (\<lambda>d. list_ex (\<lambda>p. tag p = q METS_NS ''fptr'' \<and> get_attr p ''FILEID'' = Some fid)
                             (kids d))
                (physical_divisions (document other_role_state)))
        (kids (grp_store other_role_state ! 0))"
    by (simp add: list_all_iff list_ex_iff)
  show ?thesis
    using example_env_inj shape c1 c2 role dirs c3 c4 one c6 by blast
qed

end
